theory Spec2Isabelle
  imports Complex_Main
begin

section \<open>DES-MI: dynamic ensemble selection for multi-class imbalanced datasets\<close>

text \<open>
  A shallow embedding of \<^verbatim>\<open>deslib/des/des_mi.py\<close> (class \<^verbatim>\<open>DESMI\<close>).

  Conventions of the embedding:
  \<^item> a numpy array of floats is a list (1-D), a list of rows (2-D) or a list of lists of rows
    (3-D) over \<^typ>\<open>real\<close>, and a double is the real it denotes;
  \<^item> the two places where double arithmetic changes what the code returns are modelled:
    \<^verbatim>\<open>np.exp\<close> overflows to infinity (line 167), and the product that line 310 truncates to
    an integer is rounded to a double first. Everywhere else the rounding error of a finite
    result, which stays within a floating-point tolerance, is left out, and the arrays that
    the methods receive hold no NaN and no infinity;
  \<^item> the one NaN the code itself can create (a division \<^verbatim>\<open>0/0\<close> and the mean of an empty
    slice, both in \<^verbatim>\<open>predict_proba_with_ds\<close>) is a value of the type \<open>npfloat\<close>;
  \<^item> index arrays hold naturals: the neighbour search and \<^verbatim>\<open>argsort\<close> return positions;
  \<^item> a 2-D array is a list of rows of one length; the functions work row by row, and a
    theorem that needs two arrays of the same shape says so;
  \<^item> every exception of the code and of the numpy and sklearn calls it makes is an
    \<open>error\<close> value, and a function that can raise returns \<open>error + result\<close>.
\<close>

subsection \<open>Data\<close>

datatype error =
  ValueError | TypeError | IndexError | AttributeError | OverflowError | UnsupportedCapability

text \<open>The hyper-parameter \<^verbatim>\<open>alpha\<close> is checked for its Python type, so it keeps it.\<close>

datatype pynum = PyFloat real | PyInt int

fun num_val :: "pynum \<Rightarrow> real" where
  "num_val (PyFloat x) = x"
| "num_val (PyInt i) = real_of_int i"

fun is_float :: "pynum \<Rightarrow> bool" where
  "is_float (PyFloat x) = True"
| "is_float (PyInt i) = False"

text \<open>
  The attributes of a \<^verbatim>\<open>DESMI\<close> object that the methods of the file read or write.
  An Isabelle name cannot end with an underscore, so the fitted attributes
  \<^verbatim>\<open>DSEL_target_\<close>, \<^verbatim>\<open>DSEL_processed_\<close>, \<^verbatim>\<open>n_classifiers_\<close> and \<^verbatim>\<open>n_classes_\<close> drop it, and
  \<^verbatim>\<open>k_\<close> and \<^verbatim>\<open>N_\<close> are \<open>k_attr\<close> and \<open>N_attr\<close>. The first five are set by the base class
  at fit time; \<^verbatim>\<open>N_\<close> is set by \<^verbatim>\<open>_validate_parameters\<close>.
\<close>

record desmi =
  DSEL_target :: "nat list"
  DSEL_processed :: "bool list list"
  k_attr :: nat
  n_classifiers :: nat
  n_classes :: nat
  alpha :: pynum
  pct_accuracy :: real
  voting :: string
  DFP :: bool
  N_attr :: int

text \<open>The argument of \<^verbatim>\<open>select\<close>: an array of dimension 0, 1 or 2.\<close>

datatype ndarray = Arr0 real | Arr1 "real list" | Arr2 "real list list"

text \<open>
  An entry of the probability matrix that \<^verbatim>\<open>predict_proba_with_ds\<close> returns: a real, or the
  NaN that numpy produces (with a warning, not an exception) for \<^verbatim>\<open>0/0\<close> and for the mean of
  an empty slice.
\<close>

datatype npfloat = Finite real | NaN

subsection \<open>numpy and sklearn helpers\<close>

text \<open>
  \<^verbatim>\<open>np.argsort(row)\<close>: the indices that sort the row in ascending order. The default sort
  of numpy partitions a range only while it has more than 17 entries and finishes by
  insertion, so a row of up to 17 entries is sorted by insertion alone: equal values keep
  their index order. \<open>sort_key\<close> is the insertion sort of the HOL library, and the model is
  numpy's sort on these rows. On a longer row numpy returns a sorted permutation in which
  equal values may stand in another order; the model is then one correct sort among
  others, and every statement below about the order of equal values is restricted to rows
  of at most 17 entries.
\<close>

definition argsort :: "real list \<Rightarrow> nat list" where
  "argsort xs = sort_key (\<lambda>i. xs ! i) [0..<length xs]"

text \<open>The Python slice \<^verbatim>\<open>xs[0:n]\<close>; a negative \<open>n\<close> counts from the end.\<close>

definition slice_to :: "int \<Rightarrow> 'a list \<Rightarrow> 'a list" where
  "slice_to n xs = (if 0 \<le> n then take (nat n) xs else take (nat (int (length xs) + n)) xs)"

text \<open>\<^verbatim>\<open>competences.reshape(1, -1)\<close> when \<^verbatim>\<open>competences.ndim < 2\<close>.\<close>

fun as_2d :: "ndarray \<Rightarrow> real list list" where
  "as_2d (Arr0 x) = [[x]]"
| "as_2d (Arr1 xs) = [xs]"
| "as_2d (Arr2 xss) = xss"

text \<open>
  The second component of the shape of a 2-D array. A list of rows with no row carries no
  column count; it reads as 0 here.
\<close>

definition n_columns :: "'a list list \<Rightarrow> nat" where
  "n_columns a = (case a of [] \<Rightarrow> 0 | row # _ \<Rightarrow> length row)"

text \<open>\<^verbatim>\<open>np.bincount(xs)\<close>: one count per value from 0 to the maximum; empty for an empty input.\<close>

definition bincount :: "nat list \<Rightarrow> nat list" where
  "bincount xs = (if xs = [] then [] else map (\<lambda>c. count_list xs c) [0..<Suc (Max (set xs))])"

text \<open>
  \<^verbatim>\<open>a[idx]\<close> and \<^verbatim>\<open>a[idx, :]\<close> for a 2-D index array \<open>idx\<close> on the first axis of \<open>a\<close>: the
  result has the shape of \<open>idx\<close>, and an index beyond the axis raises IndexError.
\<close>

definition take_rows :: "'a list \<Rightarrow> nat list list \<Rightarrow> error + 'a list list" where
  "take_rows a idx =
     (if list_all (list_all (\<lambda>i. i < length a)) idx
      then Inr (map (map (\<lambda>i. a ! i)) idx)
      else Inl IndexError)"

text \<open>
  \<^verbatim>\<open>sklearn.preprocessing.normalize(X, norm='l1')\<close>: the input check rejects an array with
  no row or no column (ValueError); each row is divided by the sum of its absolute values,
  and a row whose sum is zero is divided by 1.
\<close>

definition normalize_l1 :: "real list list \<Rightarrow> error + real list list" where
  "normalize_l1 X =
     (if X = [] \<or> [] \<in> set X then Inl ValueError
      else Inr (map (\<lambda>row.
             let norm = sum_list (map abs row);
                 norm = (if norm = 0 then 1 else norm)
             in map (\<lambda>x. x / norm) row) X))"

text \<open>
  numpy broadcasting along one axis: equal lengths pair up, an axis of length 1 is repeated,
  anything else does not broadcast.
\<close>

definition broadcast :: "'a list \<Rightarrow> 'b list \<Rightarrow> ('a \<times> 'b) list option" where
  "broadcast xs ys =
     (if length xs = length ys then Some (zip xs ys)
      else if length xs = 1 then Some (map (Pair (hd xs)) ys)
      else if length ys = 1 then Some (map (\<lambda>x. (x, hd ys)) xs)
      else None)"

text \<open>\<^verbatim>\<open>a * b\<close> for two 2-D arrays; shapes that do not broadcast raise ValueError.\<close>

definition multiply :: "real list list \<Rightarrow> real list list \<Rightarrow> error + real list list" where
  "multiply a b =
     (case broadcast a b of
        None \<Rightarrow> Inl ValueError
      | Some rows \<Rightarrow>
          (case those (map (\<lambda>(x, y). map_option (map (\<lambda>(u, v). u * v)) (broadcast x y)) rows) of
             None \<Rightarrow> Inl ValueError
           | Some c \<Rightarrow> Inr c))"

text \<open>
  \<^verbatim>\<open>a[np.arange(a.shape[0])[:, None], selected]\<close> (and the same with a trailing \<^verbatim>\<open>:\<close>): row
  \<open>s\<close> of the result holds the entries of row \<open>s\<close> of \<open>a\<close> at the indices of row \<open>s\<close> of
  \<open>selected\<close>. The two index arrays broadcast on the first axis; a failure to broadcast
  and an index beyond a row both raise IndexError.
\<close>

definition take_along :: "'a list list \<Rightarrow> nat list list \<Rightarrow> error + 'a list list" where
  "take_along a selected =
     (case broadcast a selected of
        None \<Rightarrow> Inl IndexError
      | Some rows \<Rightarrow>
          if list_all (\<lambda>(row, idx). list_all (\<lambda>i. i < length row) idx) rows
          then Inr (map (\<lambda>(row, idx). map (\<lambda>i. row ! i) idx) rows)
          else Inl IndexError)"

text \<open>
  \<^verbatim>\<open>votes / votes.sum(axis=1)[:, None]\<close> for an array of counts: a row whose total is zero
  holds only zeros, and \<^verbatim>\<open>0/0\<close> is NaN.
\<close>

definition divide_by_row_sum :: "nat list list \<Rightarrow> npfloat list list" where
  "divide_by_row_sum votes =
     map (\<lambda>row. map (\<lambda>v. if sum_list row = 0 then NaN
                          else Finite (real v / real (sum_list row))) row) votes"

text \<open>
  \<^verbatim>\<open>np.mean(block, axis=0)\<close> for one sample's block of \<open>n\<close> probability vectors of \<open>C\<close>
  classes: the mean of no vector is NaN.
\<close>

definition mean_vectors :: "nat \<Rightarrow> real list list \<Rightarrow> npfloat list" where
  "mean_vectors C block =
     map (\<lambda>c. if block = [] then NaN
               else Finite (sum_list (map (\<lambda>v. v ! c) block) / real (length block))) [0..<C]"

text \<open>
  \<^verbatim>\<open>row.argmax()\<close>: the scan of numpy, which moves to a later entry only when it is not
  \<open>\<le>\<close> the best so far (so the first maximum wins) and stops at a NaN. An empty row raises
  ValueError.
\<close>

fun np_le :: "npfloat \<Rightarrow> npfloat \<Rightarrow> bool" where
  "np_le (Finite a) (Finite b) = (a \<le> b)"
| "np_le _ _ = False"

fun argmax_from :: "nat \<Rightarrow> nat \<Rightarrow> npfloat \<Rightarrow> npfloat list \<Rightarrow> nat" where
  "argmax_from i best mp [] = best"
| "argmax_from i best mp (x # xs) =
     (if mp = NaN then best
      else if np_le x mp then argmax_from (Suc i) best mp xs
      else argmax_from (Suc i) i x xs)"

definition argmax :: "npfloat list \<Rightarrow> error + nat" where
  "argmax row = (case row of [] \<Rightarrow> Inl ValueError | x # xs \<Rightarrow> Inr (argmax_from 1 0 x xs))"

text \<open>A row-by-row computation stops at the first row that raises.\<close>

fun collect :: "(error + 'a) list \<Rightarrow> error + 'a list" where
  "collect [] = Inr []"
| "collect (r # rs) =
     (case r of
        Inl e \<Rightarrow> Inl e
      | Inr x \<Rightarrow> (case collect rs of Inl e \<Rightarrow> Inl e | Inr xs \<Rightarrow> Inr (x # xs)))"

text \<open>Python's \<^verbatim>\<open>int(x)\<close> on a float: truncation towards zero.\<close>

definition py_int :: "real \<Rightarrow> int" where
  "py_int x = (if 0 \<le> x then \<lfloor>x\<rfloor> else \<lceil>x\<rceil>)"

text \<open>
  \<^verbatim>\<open>np.exp\<close> on a double: a result of \<open>2 ^ 1024\<close> or more is beyond the doubles and comes out
  as infinity (numpy warns and goes on). \<open>None\<close> stands for infinity.
\<close>

definition np_exp :: "real \<Rightarrow> real option" where
  "np_exp x = (if 2 ^ 1024 \<le> exp x then None else Some (exp x))"

text \<open>
  Rounding a real to a double, to nearest and ties to even: a double has 53 significant
  bits and an exponent of at least \<open>- 1022\<close>, so the doubles around \<open>x\<close> are the multiples of
  \<open>double_ulp x\<close>; a result of \<open>2 ^ 1024\<close> or more is infinity (\<open>None\<close>).
\<close>

definition round_half_even :: "real \<Rightarrow> int" where
  "round_half_even y =
     (let f = \<lfloor>y\<rfloor>
      in if y - of_int f < 1/2 then f
         else if 1/2 < y - of_int f then f + 1
         else if even f then f else f + 1)"

definition double_ulp :: "real \<Rightarrow> real" where
  "double_ulp x = 2 powr (of_int (max \<lfloor>log 2 \<bar>x\<bar>\<rfloor> (- 1022)) - 52)"

definition to_double :: "real \<Rightarrow> real option" where
  "to_double x =
     (if x = 0 then Some 0
      else let r = of_int (round_half_even (x / double_ulp x)) * double_ulp x
           in if 2 ^ 1024 \<le> \<bar>r\<bar> then None else Some r)"

text \<open>
  \<^verbatim>\<open>n * x\<close> for a Python integer \<open>n\<close> and a float \<open>x\<close>: the integer is converted to a double
  (OverflowError when it is too large), and the product of the two doubles is rounded to a
  double, possibly infinity (\<open>None\<close>).
\<close>

definition int_times_float :: "nat \<Rightarrow> real \<Rightarrow> error + real option" where
  "int_times_float n x =
     (case to_double (real n) of
        None \<Rightarrow> Inl OverflowError
      | Some d \<Rightarrow> Inr (to_double (d * x)))"

text \<open>\<^verbatim>\<open>int(x)\<close> on a float that may be infinite: infinity raises OverflowError.\<close>

definition int_of_float :: "real option \<Rightarrow> error + int" where
  "int_of_float x = (case x of None \<Rightarrow> Inl OverflowError | Some y \<Rightarrow> Inr (py_int y))"

subsection \<open>Collaborators outside the file\<close>

text \<open>
  Modelled from the spec: \<^verbatim>\<open>deslib.util.aggregation.sum_votes_per_class\<close> is imported by the
  file and not part of it. The spec describes its result as the tally of votes per class, a
  per-sample histogram over \<open>n_classes\<close>: entry \<open>label\<close> of a row counts the votes of the
  sample that equal \<open>label\<close>, so a vote outside \<open>[0, n_classes)\<close> is counted nowhere.
\<close>

definition sum_votes_per_class :: "int list list \<Rightarrow> nat \<Rightarrow> nat list list" where
  "sum_votes_per_class votes n =
     map (\<lambda>row. map (\<lambda>label. count_list row (int label)) [0..<n]) votes"

text \<open>
  Modelled from the spec: \<^verbatim>\<open>BaseDS._check_predict_proba\<close> belongs to the base class, which is
  not part of the file. The spec says that soft voting requires the pool of base classifiers
  to support probability output and that preparation fails with UnsupportedCapability if it
  does not. Whether the pool supports it is the argument.
\<close>

definition check_predict_proba :: "bool \<Rightarrow> error option" where
  "check_predict_proba pool_has_predict_proba =
     (if pool_has_predict_proba then None else Some UnsupportedCapability)"

subsection \<open>\<^verbatim>\<open>DESMI.estimate_competence\<close>\<close>

text \<open>
  Line 167, \<^verbatim>\<open>1. / (1 + np.exp(self.alpha * num))\<close>, for one entry \<open>n\<close> of \<open>num\<close>: when the
  exponential overflows, the sum is infinity and the quotient is 0.
\<close>

definition imbalance_weight :: "real \<Rightarrow> nat \<Rightarrow> real" where
  "imbalance_weight a n = (case np_exp (a * real n) of None \<Rightarrow> 0 | Some e \<Rightarrow> 1 / (1 + e))"

text \<open>
  Lines 164 to 168: the weight of every neighbour, normalised per sample. The lookup
  \<^verbatim>\<open>class_frequency[targets]\<close> cannot fail, since \<open>bincount\<close> covers every label of
  \<open>DSEL_target\<close>.
\<close>

definition neighbor_weights :: "desmi \<Rightarrow> nat list list \<Rightarrow> error + real list list" where
  "neighbor_weights self competence_region =
     (let class_frequency = bincount (DSEL_target self) in
      case take_rows (DSEL_target self) competence_region of
        Inl e \<Rightarrow> Inl e
      | Inr targets \<Rightarrow>
          (case take_rows class_frequency targets of
             Inl e \<Rightarrow> Inl e
           | Inr num \<Rightarrow>
               let weight = map (map (imbalance_weight (num_val (alpha self)))) num
               in normalize_l1 weight))"

text \<open>
  Lines 170 to 173: the loop fills an array \<open>correct\<close> that is never read, but each round can
  raise. Round \<open>i\<close> reads column \<open>i\<close> of \<open>correct_num\<close>, which has \<open>m\<close> columns (IndexError
  beyond them), and assigns an array of \<open>k\<close> columns to a slice of \<open>k_attr\<close> columns, which
  numpy accepts when the two are equal or \<open>k = 1\<close> (ValueError otherwise).
\<close>

fun correct_loop :: "nat \<Rightarrow> nat \<Rightarrow> nat \<Rightarrow> nat list \<Rightarrow> error option" where
  "correct_loop m k k' [] = None"
| "correct_loop m k k' (i # rounds) =
     (if m \<le> i then Some IndexError
      else if k \<noteq> k' \<and> k \<noteq> 1 then Some ValueError
      else correct_loop m k k' rounds)"

text \<open>
  The arguments \<open>distances\<close> and \<open>predictions\<close> default to \<^verbatim>\<open>None\<close>. The result has one row
  per sample and one column per column of \<open>DSEL_processed\<close>: entry \<open>i\<close> of a row is the sum
  over the neighbours of the sample of flag times weight (lines 176 and 179).
\<close>

definition estimate_competence ::
  "desmi \<Rightarrow> nat list list \<Rightarrow> real list list option \<Rightarrow> int list list option
     \<Rightarrow> error + real list list" where
  "estimate_competence self competence_region distances predictions =
     (case neighbor_weights self competence_region of
        Inl e \<Rightarrow> Inl e
      | Inr weight \<Rightarrow>
          (case take_rows (DSEL_processed self) competence_region of
             Inl e \<Rightarrow> Inl e
           | Inr correct_num \<Rightarrow>
               (case correct_loop (n_columns (DSEL_processed self)) (n_columns competence_region)
                       (k_attr self) [0..<n_classifiers self] of
                  Some e \<Rightarrow> Inl e
                | None \<Rightarrow>
                    Inr (map2 (\<lambda>flags w.
                           map (\<lambda>i. sum_list (map2 (\<lambda>f x. of_bool (f ! i) * x) flags w))
                             [0..<n_columns (DSEL_processed self)])
                         correct_num weight))))"

text \<open>
  The weights of lines 164 to 168, entry by entry. The raw weight of a neighbour that is
  DSEL sample \<open>i\<close> is line 167 at the class frequency of the sample, the number of DSEL
  samples with its label. The L1-normalised weight of neighbour \<open>p\<close> of a query is its raw
  weight divided by the sum of the raw weights of the neighbours of the query, or by 1 when
  the sum is 0 (the raw weights are not negative, so the sum is the L1 norm).
\<close>

definition raw_weight :: "desmi \<Rightarrow> nat \<Rightarrow> real" where
  "raw_weight self i =
     imbalance_weight (num_val (alpha self))
       (count_list (DSEL_target self) (DSEL_target self ! i))"

definition l1_weight :: "desmi \<Rightarrow> nat list \<Rightarrow> nat \<Rightarrow> real" where
  "l1_weight self neighbors p =
     (let norm = (\<Sum>q < length neighbors. raw_weight self (neighbors ! q))
      in raw_weight self (neighbors ! p) / (if norm = 0 then 1 else norm))"

text \<open>
  The weighting in the words of the spec, over the reals: the raw weight of a DSEL sample is
  \<open>1 / (1 + exp (alpha * class_frequency))\<close>, and the normalised weight of neighbour \<open>p\<close> of a
  query is its raw weight divided by the sum of the raw weights of the neighbours of the
  query.
\<close>

definition spec_raw_weight :: "desmi \<Rightarrow> nat \<Rightarrow> real" where
  "spec_raw_weight self i =
     1 / (1 + exp (num_val (alpha self)
                   * real (count_list (DSEL_target self) (DSEL_target self ! i))))"


subsection \<open>\<^verbatim>\<open>DESMI.select\<close>\<close>

definition select :: "desmi \<Rightarrow> ndarray \<Rightarrow> nat list list" where
  "select self competences =
     (let competences = as_2d competences;
          selected_classifiers = map argsort competences
      in map (\<lambda>row. slice_to (N_attr self) (rev row)) selected_classifiers)"

text \<open>
  The reference computation the spec names for one row: argsort, reverse, keep the first
  \<open>N\<close> indices.
\<close>

definition select_reference :: "nat \<Rightarrow> real list \<Rightarrow> nat list" where
  "select_reference N row = take N (rev (argsort row))"

subsection \<open>\<^verbatim>\<open>DESMI.predict_proba_with_ds\<close> and \<^verbatim>\<open>DESMI.classify_with_ds\<close>\<close>

text \<open>
  Lines 277 to 284: the matrix \<open>selected_classifiers\<close> that \<^verbatim>\<open>predict_proba_with_ds\<close>
  computes before it votes. \<^verbatim>\<open>accuracy * DFP_mask\<close> with the default mask \<^verbatim>\<open>None\<close> raises
  TypeError.
\<close>

definition selected_classifiers ::
  "desmi \<Rightarrow> nat list list \<Rightarrow> real list list option \<Rightarrow> real list list option
     \<Rightarrow> error + nat list list" where
  "selected_classifiers self competence_region distances DFP_mask =
     (case estimate_competence self competence_region distances None of
        Inl e \<Rightarrow> Inl e
      | Inr accuracy \<Rightarrow>
          (case (if DFP self
                 then (case DFP_mask of
                         None \<Rightarrow> Inl TypeError
                       | Some dfp \<Rightarrow> multiply accuracy dfp)
                 else Inr accuracy) of
             Inl e \<Rightarrow> Inl e
           | Inr accuracy \<Rightarrow> Inr (select self (Arr2 accuracy))))"

text \<open>
  Lines 285 to 298. \<open>predictions\<close> and \<open>probabilities\<close> may be \<^verbatim>\<open>None\<close>; reading the shape of
  \<^verbatim>\<open>None\<close> raises AttributeError. The number of classes of the soft vote is the third
  component of the shape of \<open>probabilities\<close>.
\<close>

definition predict_proba_with_ds ::
  "desmi \<Rightarrow> int list list option \<Rightarrow> real list list list option \<Rightarrow> nat list list
     \<Rightarrow> real list list option \<Rightarrow> real list list option \<Rightarrow> error + npfloat list list" where
  "predict_proba_with_ds self predictions probabilities competence_region distances DFP_mask =
     (case selected_classifiers self competence_region distances DFP_mask of
        Inl e \<Rightarrow> Inl e
      | Inr selected \<Rightarrow>
          if voting self = ''hard'' then
            (case predictions of
               None \<Rightarrow> Inl AttributeError
             | Some preds \<Rightarrow>
                 (case take_along preds selected of
                    Inl e \<Rightarrow> Inl e
                  | Inr votes \<Rightarrow>
                      let votes = sum_votes_per_class votes (n_classes self)
                      in Inr (divide_by_row_sum votes)))
          else
            (case probabilities of
               None \<Rightarrow> Inl AttributeError
             | Some probs \<Rightarrow>
                 (case take_along probs selected of
                    Inl e \<Rightarrow> Inl e
                  | Inr ensemble_proba \<Rightarrow>
                      Inr (map (mean_vectors (n_columns (concat probs))) ensemble_proba))))"

text \<open>Lines 242 to 245: \<^verbatim>\<open>proba.argmax(axis=1)\<close>.\<close>

definition classify_with_ds ::
  "desmi \<Rightarrow> int list list option \<Rightarrow> real list list list option \<Rightarrow> nat list list
     \<Rightarrow> real list list option \<Rightarrow> real list list option \<Rightarrow> error + nat list" where
  "classify_with_ds self predictions probabilities neighbors distances DFP_mask =
     (case predict_proba_with_ds self predictions probabilities neighbors distances DFP_mask of
        Inl e \<Rightarrow> Inl e
      | Inr proba \<Rightarrow> collect (map argmax proba))"

subsection \<open>\<^verbatim>\<open>DESMI._validate_parameters\<close>\<close>

text \<open>
  \<^verbatim>\<open>super()._validate_parameters()\<close> runs code of the base class, which is not part of the
  file: its outcome (\<open>None\<close> when it returns, the error when it raises) is the argument
  \<open>super_outcome\<close>. The method assigns \<^verbatim>\<open>N_\<close> before its checks, so the object is returned
  together with the outcome, also when a check raises. \<open>pct_accuracy\<close> is a float, and
  line 310 truncates the double that the product \<^verbatim>\<open>self.n_classifiers_ * self.pct_accuracy\<close>
  is rounded to: \<^verbatim>\<open>int(10 * 0.3)\<close> is 3, although the double 0.3 is below three tenths.
\<close>

definition selection_size :: "nat \<Rightarrow> real \<Rightarrow> error + int" where
  "selection_size n pct =
     (case int_times_float n pct of
        Inl e \<Rightarrow> Inl e
      | Inr product \<Rightarrow> int_of_float product)"

definition validate_parameters :: "error option \<Rightarrow> bool \<Rightarrow> desmi \<Rightarrow> desmi \<times> error option" where
  "validate_parameters super_outcome pool_has_predict_proba self =
     (case super_outcome of
        Some e \<Rightarrow> (self, Some e)
      | None \<Rightarrow>
          (case selection_size (n_classifiers self) (pct_accuracy self) of
             Inl e \<Rightarrow> (self, Some e)
           | Inr N \<Rightarrow>
               let self = self\<lparr>N_attr := N\<rparr>
               in if N_attr self \<le> 0 then (self, Some ValueError)
                  else if num_val (alpha self) \<le> 0 then (self, Some ValueError)
                  else if \<not> is_float (alpha self) then (self, Some TypeError)
                  else if pct_accuracy self \<le> 0 \<or> pct_accuracy self > 1
                    then (self, Some ValueError)
                  else if voting self \<notin> set [''soft'', ''hard''] then (self, Some ValueError)
                  else if voting self = ''soft''
                    then (self, check_predict_proba pool_has_predict_proba)
                  else (self, None)))"

subsection \<open>Example objects\<close>

text \<open>
  A fitted object with four DSEL samples of labels 0, 0, 0, 1 and three base classifiers: the
  table says which classifier is right on which DSEL sample. \<open>pct_accuracy\<close> is the double
  0.67, and the selection size is \<open>int(3 * 0.67) = 2\<close>.
\<close>

definition example_desmi :: desmi where
  "example_desmi =
     \<lparr>DSEL_target = [0, 0, 0, 1],
      DSEL_processed = [[True, True, False], [False, True, True],
                        [True, False, False], [False, False, True]],
      k_attr = 2, n_classifiers = 3, n_classes = 2, alpha = PyFloat (9/10),
      pct_accuracy = 6034823500676465 / 2 ^ 53, voting = ''hard'', DFP = False, N_attr = 2\<rparr>"

definition example_soft :: desmi where
  "example_soft = example_desmi\<lparr>voting := ''soft''\<rparr>"

definition example_pruned :: desmi where
  "example_pruned = example_desmi\<lparr>DFP := True\<rparr>"

definition example_unvalidated :: desmi where
  "example_unvalidated = example_desmi\<lparr>N_attr := 0\<rparr>"

definition example_int_alpha :: desmi where
  "example_int_alpha = example_desmi\<lparr>alpha := PyInt 1\<rparr>"

text \<open>
  An object with pruning switched on, two base classifiers that are wrong on every DSEL
  sample, and selection size \<open>int(2 * 0.5) = 1\<close>.
\<close>

text \<open>
  An object with a DSEL of 1000 samples of one class and the default \<open>alpha = 0.9\<close>.
\<close>

definition example_large_class :: desmi where
  "example_large_class =
     \<lparr>DSEL_target = replicate 1000 0,
      DSEL_processed = replicate 1000 [True, False],
      k_attr = 2, n_classifiers = 2, n_classes = 1, alpha = PyFloat (9/10),
      pct_accuracy = 1/2, voting = ''hard'', DFP = False, N_attr = 1\<rparr>"

definition example_zero :: desmi where
  "example_zero =
     \<lparr>DSEL_target = [0, 0, 1, 1],
      DSEL_processed = [[False, False], [False, False], [False, False], [False, False]],
      k_attr = 2, n_classifiers = 2, n_classes = 2, alpha = PyFloat (9/10),
      pct_accuracy = 1/2, voting = ''hard'', DFP = True, N_attr = 1\<rparr>"

section \<open>Supporting facts\<close>

subsection \<open>Sorting and slicing\<close>

lemma length_argsort: "length (argsort xs) = length xs"
  by (simp add: argsort_def)

lemma set_argsort: "set (argsort xs) = {0..<length xs}"
  by (simp add: argsort_def)

lemma distinct_argsort: "distinct (argsort xs)"
  by (simp add: argsort_def)

lemma sorted_argsort: "sorted_wrt (\<lambda>i j. xs ! i \<le> xs ! j) (argsort xs)"
proof -
  have "sorted (map (\<lambda>i. xs ! i) (argsort xs))"
    by (simp add: argsort_def)
  then show ?thesis
    by (simp add: sorted_map)
qed

lemma filter_strict_order:
  fixes xs :: "nat list"
  assumes "sorted_wrt (<) (filter P xs)" "p < q" "q < length xs" "P (xs ! p)" "P (xs ! q)"
  shows "xs ! p < xs ! q"
proof -
  have split: "xs = take q xs @ xs ! q # drop (Suc q) xs"
    using assms(3) by (simp add: id_take_nth_drop)
  have "xs ! p \<in> set (take q xs)"
    using assms(2,3) by (metis in_set_conv_nth length_take min.absorb2 less_imp_le nth_take)
  then have "xs ! p \<in> set (filter P (take q xs))"
    using assms(4) by simp
  moreover have "filter P xs = filter P (take q xs) @ xs ! q # filter P (drop (Suc q) xs)"
    using assms(5) by (subst split) simp
  ultimately show ?thesis
    using assms(1) by (simp add: sorted_wrt_append)
qed

lemma argsort_stable:
  assumes "p < q" "q < length xs" "xs ! (argsort xs ! p) = xs ! (argsort xs ! q)"
  shows "argsort xs ! p < argsort xs ! q"
proof -
  let ?k = "xs ! (argsort xs ! q)"
  have "filter (\<lambda>i. xs ! i = ?k) (argsort xs) = filter (\<lambda>i. xs ! i = ?k) [0..<length xs]"
    unfolding argsort_def by (rule sort_key_stable)
  moreover have "sorted_wrt (<) (filter (\<lambda>i. xs ! i = ?k) [0..<length xs])"
    by (rule sorted_wrt_filter) simp
  ultimately have "sorted_wrt (<) (filter (\<lambda>i. xs ! i = ?k) (argsort xs))"
    by simp
  then show ?thesis
    using assms by (intro filter_strict_order[where P = "\<lambda>i. xs ! i = ?k"]) (simp_all add: length_argsort)
qed

text \<open>The reversed argsort: descending values, and descending indices among equal values.\<close>

lemma rev_argsort_descending: "sorted_wrt (\<lambda>i j. xs ! j \<le> xs ! i) (rev (argsort xs))"
  using sorted_argsort[of xs] by (simp add: sorted_wrt_rev)

lemma rev_argsort_ties:
  assumes "p < q" "q < length xs" "xs ! (rev (argsort xs) ! p) = xs ! (rev (argsort xs) ! q)"
  shows "rev (argsort xs) ! q < rev (argsort xs) ! p"
proof -
  let ?n = "length xs"
  have p: "rev (argsort xs) ! p = argsort xs ! (?n - Suc p)"
    using assms(1,2) by (simp add: rev_nth length_argsort)
  have q: "rev (argsort xs) ! q = argsort xs ! (?n - Suc q)"
    using assms(2) by (simp add: rev_nth length_argsort)
  have "argsort xs ! (?n - Suc q) < argsort xs ! (?n - Suc p)"
    using assms by (intro argsort_stable) (auto simp: p q)
  then show ?thesis
    by (simp add: p q)
qed

lemma select_row:
  "s < length (as_2d competences) \<Longrightarrow>
   select self competences ! s = slice_to (N_attr self) (rev (argsort (as_2d competences ! s)))"
  by (simp add: select_def)

lemma length_select: "length (select self competences) = length (as_2d competences)"
  by (simp add: select_def)

lemma slice_to_take: "\<exists>n. slice_to N xs = take n xs"
  by (auto simp: slice_to_def)

lemma descending_prefix_positive:
  fixes f :: "nat \<Rightarrow> real"
  assumes "sorted_wrt (\<lambda>i j. f j \<le> f i) d" and "n \<le> card {x \<in> set d. 0 < f x}"
    and "i \<in> set (take n d)"
  shows "0 < f i"
proof (rule ccontr)
  assume neg: "\<not> 0 < f i"
  obtain p where p: "p < n" "p < length d" "d ! p = i"
    using assms(3) by (auto simp: in_set_conv_nth)
  have "{x \<in> set d. 0 < f x} \<subseteq> set (take p d)"
  proof
    fix x assume "x \<in> {x \<in> set d. 0 < f x}"
    then obtain q where q: "q < length d" "d ! q = x" and pos: "0 < f x"
      by (auto simp: in_set_conv_nth)
    have "q < p"
    proof (rule ccontr)
      assume "\<not> q < p"
      then consider "q = p" | "p < q" by linarith
      then show False
      proof cases
        case 1
        then show False using p(3) q(2) pos neg by simp
      next
        case 2
        have "f (d ! q) \<le> f (d ! p)"
          using sorted_wrt_nth_less[OF assms(1) 2 q(1)] .
        then show False using p(3) q(2) pos neg by simp
      qed
    qed
    then show "x \<in> set (take p d)"
      using q by (auto simp: in_set_conv_nth)
  qed
  then have "card {x \<in> set d. 0 < f x} \<le> card (set (take p d))"
    by (intro card_mono) simp_all
  also have "\<dots> \<le> length (take p d)"
    by (rule card_length)
  also have "\<dots> < n"
    using p(1) by simp
  finally show False
    using assms(2) by simp
qed

subsection \<open>Indexing, broadcasting and row-wise results\<close>

lemma bincount_nth:
  assumes "t \<in> set xs"
  shows "t < length (bincount xs) \<and> bincount xs ! t = count_list xs t"
proof -
  have "t \<le> Max (set xs)"
    using assms by simp
  then have "t < Suc (Max (set xs))"
    by simp
  moreover have "xs \<noteq> []"
    using assms by auto
  ultimately show ?thesis
    unfolding bincount_def by (simp del: upt_Suc)
qed

lemma those_Some:
  "those xs = Some ys \<Longrightarrow> length ys = length xs \<and> (\<forall>i < length xs. xs ! i = Some (ys ! i))"
proof (induction xs arbitrary: ys)
  case Nil
  then show ?case by simp
next
  case (Cons x xs)
  then show ?case
    by (auto split: option.splits simp: nth_Cons split: nat.splits)
qed

lemma collect_Inr:
  "collect rs = Inr xs \<Longrightarrow> length xs = length rs \<and> (\<forall>i < length rs. rs ! i = Inr (xs ! i))"
proof (induction rs arbitrary: xs)
  case Nil
  then show ?case by simp
next
  case (Cons r rs)
  then show ?case
    by (auto split: sum.splits simp: nth_Cons split: nat.splits)
qed


lemma multiply_same_shape:
  assumes "multiply a b = Inr c" and "length a = length b"
    and "s < length a" and "length (a ! s) = length (b ! s)"
  shows "length c = length a \<and> c ! s = map2 (*) (a ! s) (b ! s)"
proof -
  let ?f = "\<lambda>(x, y). map_option (map (\<lambda>(u, v). u * v)) (broadcast x y)"
  have c: "those (map ?f (zip a b)) = Some c"
    using assms(1,2) by (auto simp: multiply_def broadcast_def split: option.splits)
  from those_Some[OF c] have len: "length c = length a"
    and nth: "\<And>i. i < length a \<Longrightarrow> map ?f (zip a b) ! i = Some (c ! i)"
    using assms(2) by auto
  have "?f (a ! s, b ! s) = Some (c ! s)"
    using nth[OF assms(3)] assms(2,3) by simp
  then have "c ! s = map2 (*) (a ! s) (b ! s)"
    using assms(4) by (auto simp: broadcast_def)
  then show ?thesis
    using len by simp
qed

subsection \<open>Overflow of the exponential\<close>

lemma exp_overflows:
  fixes x :: real
  assumes "900 \<le> x"
  shows "2 ^ 1024 \<le> exp x"
proof -
  have "(5/2 :: real) \<le> exp 1"
    using exp_lower_Taylor_quadratic[of "1::real"] by simp
  then have "(5/2 :: real) ^ 900 \<le> exp 1 ^ 900"
    by (intro power_mono) simp_all
  moreover have "(2::real) ^ 11 \<le> (5/2) ^ 9"
    by (simp add: power_divide)
  then have "((2::real) ^ 11) ^ 100 \<le> ((5/2) ^ 9) ^ 100"
    by (intro power_mono) simp_all
  then have "(2::real) ^ 1100 \<le> (5/2) ^ 900"
    by (simp flip: power_mult)
  moreover have "(2::real) ^ 1024 \<le> 2 ^ 1100"
    by (intro power_increasing) simp_all
  moreover have "exp (1::real) ^ 900 = exp 900"
    using exp_of_nat_mult[of 900 "1::real"] by simp
  moreover have "exp 900 \<le> exp x"
    using assms by simp
  ultimately show ?thesis
    by linarith
qed

lemma exp_fits:
  fixes x :: real
  assumes "x \<le> 3"
  shows "exp x < 2 ^ 1024"
proof -
  have "exp x \<le> exp 3"
    using assms by simp
  also have "exp (3::real) = exp 1 ^ 3"
    using exp_of_nat_mult[of 3 "1::real"] by simp
  also have "\<dots> \<le> 3 ^ 3"
    by (intro power_mono exp_le) simp
  also have "\<dots> < (2::real) ^ 5"
    by simp
  also have "\<dots> \<le> 2 ^ 1024"
    by (intro power_increasing) simp_all
  finally show ?thesis .
qed

lemma imbalance_weight_nonneg: "0 \<le> imbalance_weight a n"
  by (simp add: imbalance_weight_def np_exp_def add_nonneg_nonneg)

lemma imbalance_weight_overflow:
  "2 ^ 1024 \<le> exp (a * real n) \<Longrightarrow> imbalance_weight a n = 0"
  by (simp add: imbalance_weight_def np_exp_def)

lemma imbalance_weight_fits:
  "exp (a * real n) < 2 ^ 1024 \<Longrightarrow> imbalance_weight a n = 1 / (1 + exp (a * real n))"
  by (simp add: imbalance_weight_def np_exp_def)

subsection \<open>The weights of the neighbours\<close>

lemma raw_weight_nonneg: "0 \<le> raw_weight self i"
  by (simp add: raw_weight_def imbalance_weight_nonneg)

lemma spec_raw_weight_pos: "0 < spec_raw_weight self i"
  by (simp add: spec_raw_weight_def add_pos_pos)

lemma raw_weight_fits:
  assumes "exp (num_val (alpha self)
                * real (count_list (DSEL_target self) (DSEL_target self ! i))) < 2 ^ 1024"
  shows "raw_weight self i = spec_raw_weight self i"
  using assms by (simp add: raw_weight_def spec_raw_weight_def imbalance_weight_fits)

lemma neighbor_weights_eq:
  "neighbor_weights self region =
     (if list_all (list_all (\<lambda>i. i < length (DSEL_target self))) region
      then normalize_l1 (map (map (raw_weight self)) region)
      else Inl IndexError)"
proof (cases "list_all (list_all (\<lambda>i. i < length (DSEL_target self))) region")
  case False
  then show ?thesis
    by (simp add: neighbor_weights_def take_rows_def)
next
  case True
  let ?t = "DSEL_target self"
  let ?targets = "map (map (\<lambda>i. ?t ! i)) region"
  have mem: "\<And>row i. row \<in> set region \<Longrightarrow> i \<in> set row \<Longrightarrow> ?t ! i \<in> set ?t"
    using True by (auto simp: list_all_iff)
  have ok: "list_all (list_all (\<lambda>c. c < length (bincount ?t))) ?targets"
    using mem bincount_nth[of _ ?t] by (auto simp: list_all_iff)
  have raw: "map (map (imbalance_weight (num_val (alpha self))))
               (map (map (\<lambda>c. bincount ?t ! c)) ?targets) = map (map (raw_weight self)) region"
    using mem bincount_nth[of _ ?t] by (auto simp: raw_weight_def)
  have t1: "take_rows ?t region = Inr ?targets"
    using True by (simp add: take_rows_def)
  have t2: "take_rows (bincount ?t) ?targets = Inr (map (map (\<lambda>c. bincount ?t ! c)) ?targets)"
    using ok by (simp add: take_rows_def)
  show ?thesis
    by (simp only: neighbor_weights_def Let_def t1 t2 sum.case raw True if_True)
qed


lemma sum_list_raw_weight:
  "sum_list (map (raw_weight self) row) = (\<Sum>q < length row. raw_weight self (row ! q))"
proof -
  have "sum_list (map (raw_weight self) row) = (\<Sum>q = 0..<length row. map (raw_weight self) row ! q)"
    by (simp add: sum_list_sum_nth)
  then show ?thesis
    by (simp add: atLeast0LessThan)
qed

lemma normalize_l1_raw:
  assumes "normalize_l1 (map (map (raw_weight self)) region) = Inr weight"
  shows "region \<noteq> [] \<and> [] \<notin> set region \<and>
         weight = map (\<lambda>row. map (\<lambda>p. l1_weight self row p) [0..<length row]) region"
proof -
  have ne: "region \<noteq> []" "[] \<notin> set region"
    using assms by (auto simp: normalize_l1_def split: if_splits)
  have w: "weight = map (\<lambda>row. let norm = sum_list (map abs row);
                                 norm = (if norm = 0 then 1 else norm)
                             in map (\<lambda>x. x / norm) row) (map (map (raw_weight self)) region)"
    using assms by (simp add: normalize_l1_def split: if_splits)
  have "(let norm = sum_list (map abs (map (raw_weight self) row));
             norm = (if norm = 0 then 1 else norm)
         in map (\<lambda>x. x / norm) (map (raw_weight self) row))
        = map (\<lambda>p. l1_weight self row p) [0..<length row]" for row
  proof -
    have abs: "map abs (map (raw_weight self) row) = map (raw_weight self) row"
      by (simp add: abs_of_nonneg raw_weight_nonneg)
    show ?thesis
      unfolding abs Let_def
      by (auto intro!: nth_equalityI simp: l1_weight_def sum_list_raw_weight)
  qed
  then show ?thesis
    using ne w by simp
qed


lemma sum_l1_weight:
  "(\<Sum>p < length row. l1_weight self row p)
   = (if (\<Sum>q < length row. raw_weight self (row ! q)) = 0 then 0 else 1)"
proof (cases "(\<Sum>q < length row. raw_weight self (row ! q)) = 0")
  case True
  then have "raw_weight self (row ! p) = 0" if "p < length row" for p
    using that by (subst (asm) sum_nonneg_eq_0_iff) (auto simp: raw_weight_nonneg)
  then show ?thesis
    using True by (simp add: l1_weight_def)
next
  case False
  then show ?thesis
    by (simp add: l1_weight_def flip: sum_divide_distrib)
qed


lemma sum_l1_weight_positive:
  assumes "p < length row" and "0 < raw_weight self (row ! p)"
  shows "(\<Sum>p < length row. l1_weight self row p) = 1"
proof -
  have "raw_weight self (row ! p) \<le> (\<Sum>q < length row. raw_weight self (row ! q))"
    using assms(1) by (intro member_le_sum) (auto simp: raw_weight_nonneg)
  then show ?thesis
    using assms(2) by (simp add: sum_l1_weight)
qed


text \<open>
  The weights of a sample sum to 1 when a neighbour of the sample has a positive raw
  weight, which is the case when its exponential does not overflow.
\<close>

lemma neighbor_weights_Inr:
  assumes "neighbor_weights self region = Inr weight"
  shows "length weight = length region \<and>
         (\<forall>s < length region. weight ! s = map (\<lambda>p. l1_weight self (region ! s) p)
                                              [0..<length (region ! s)])"
proof -
  have "normalize_l1 (map (map (raw_weight self)) region) = Inr weight"
    using assms by (simp add: neighbor_weights_eq split: if_splits)
  from normalize_l1_raw[OF this] show ?thesis
    by simp
qed

lemma neighbor_weights_sum_to_one_if_positive:
  assumes "neighbor_weights self region = Inr weight"
    and "s < length region" and "p < length (region ! s)"
    and "0 < raw_weight self (region ! s ! p)"
  shows "sum_list (weight ! s) = 1"
proof -
  have "weight ! s = map (\<lambda>p. l1_weight self (region ! s) p) [0..<length (region ! s)]"
    using neighbor_weights_Inr[OF assms(1)] assms(2) by simp
  then show ?thesis
    using sum_l1_weight_positive[OF assms(3,4)]
    by (simp add: sum_list_sum_nth atLeast0LessThan)
qed

lemma raw_weight_positive_if_fits:
  assumes "exp (num_val (alpha self)
                * real (count_list (DSEL_target self) (DSEL_target self ! i))) < 2 ^ 1024"
  shows "0 < raw_weight self i"
  using raw_weight_fits[OF assms] spec_raw_weight_pos[of self i] by simp

subsection \<open>The competence matrix and the selected classifiers\<close>

lemma estimate_competence_Inr:
  assumes "estimate_competence self region distances predictions = Inr competence"
  shows "\<exists>weight. neighbor_weights self region = Inr weight \<and>
           list_all (list_all (\<lambda>i. i < length (DSEL_processed self))) region \<and>
           competence =
             map2 (\<lambda>flags w.
                 map (\<lambda>i. sum_list (map2 (\<lambda>f x. of_bool (f ! i) * x) flags w))
                   [0..<n_columns (DSEL_processed self)])
               (map (map (\<lambda>i. DSEL_processed self ! i)) region) weight"
  using assms
  by (auto simp: estimate_competence_def take_rows_def split: sum.splits option.splits if_splits)



lemma estimate_competence_shape:
  assumes "estimate_competence self region distances predictions = Inr competence"
  shows "length competence = length region \<and>
         (\<forall>row \<in> set competence. length row = n_columns (DSEL_processed self))"
proof -
  obtain weight where nw: "neighbor_weights self region = Inr weight"
    and c: "competence =
             map2 (\<lambda>flags w.
                 map (\<lambda>i. sum_list (map2 (\<lambda>f x. of_bool (f ! i) * x) flags w))
                   [0..<n_columns (DSEL_processed self)])
               (map (map (\<lambda>i. DSEL_processed self ! i)) region) weight"
    using estimate_competence_Inr[OF assms] by blast
  have "normalize_l1 (map (map (raw_weight self)) region) = Inr weight"
    using nw by (simp add: neighbor_weights_eq split: if_splits)
  then have "length weight = length region"
    by (auto simp: normalize_l1_def split: if_splits)
  then show ?thesis
    by (auto simp: c set_zip)
qed


subsection \<open>Votes, means and argmax\<close>




lemma divide_by_row_sum_zero:
  assumes "s < length votes" and "sum_list (votes ! s) = 0"
  shows "divide_by_row_sum votes ! s = replicate (length (votes ! s)) NaN"
  using assms by (simp add: divide_by_row_sum_def map_replicate_const)

lemma divide_by_row_sum_pos:
  assumes "s < length votes" and "sum_list (votes ! s) \<noteq> 0"
  shows "divide_by_row_sum votes ! s =
           map Finite (map (\<lambda>v. real v / real (sum_list (votes ! s))) (votes ! s))"
  using assms by (simp add: divide_by_row_sum_def)

lemma mean_vectors_eq:
  "mean_vectors C block =
     (if block = [] then replicate C NaN
      else map Finite (map (\<lambda>c. sum_list (map (\<lambda>v. v ! c) block) / real (length block)) [0..<C]))"
  by (simp add: mean_vectors_def map_replicate_const)







lemma predict_proba_rows:
  assumes "predict_proba_with_ds self predictions probabilities region distances dfp = Inr proba"
    and "row \<in> set proba"
  shows "(\<exists>ys. row = map Finite ys) \<or> row = replicate (length row) NaN"
proof (cases "voting self = ''hard''")
  case True
  then obtain votes where v: "proba = divide_by_row_sum votes"
    using assms(1) by (auto simp: predict_proba_with_ds_def split: sum.splits option.splits)
  obtain s where "s < length proba" "row = proba ! s"
    using assms(2) by (auto simp: in_set_conv_nth)
  then have s: "s < length votes" "row = divide_by_row_sum votes ! s"
    by (simp_all add: v divide_by_row_sum_def)
  show ?thesis
  proof (cases "sum_list (votes ! s) = 0")
    case True
    show ?thesis
      unfolding s(2) divide_by_row_sum_zero[OF s(1) True] by simp
  next
    case False
    show ?thesis
      unfolding s(2) divide_by_row_sum_pos[OF s(1) False] by blast
  qed
next
  case False
  then obtain C block where row: "row = mean_vectors C block"
    using assms by (auto simp: predict_proba_with_ds_def split: sum.splits option.splits)
  show ?thesis
  proof (cases "block = []")
    case True
    then show ?thesis
      by (simp add: row mean_vectors_eq)
  next
    case False
    then have "row = map Finite (map (\<lambda>c. sum_list (map (\<lambda>v. v ! c) block)
                                         / real (length block)) [0..<C])"
      by (simp add: row mean_vectors_eq)
    then show ?thesis
      by blast
  qed
qed

lemma argmax_from_finite:
  "argmax_from i best (Finite m) (map Finite ys) = l \<Longrightarrow>
   (l = best \<and> (\<forall>y \<in> set ys. y \<le> m)) \<or>
   (i \<le> l \<and> l < i + length ys \<and> m < ys ! (l - i) \<and> (\<forall>y \<in> set ys. y \<le> ys ! (l - i)) \<and>
    (\<forall>j < l - i. ys ! j < ys ! (l - i)))"
proof (induction ys arbitrary: i best m)
  case Nil
  then show ?case by simp
next
  case (Cons y ys)
  show ?case
  proof (cases "y \<le> m")
    case True
    then have "argmax_from (Suc i) best (Finite m) (map Finite ys) = l"
      using Cons.prems by simp
    from Cons.IH[OF this] show ?thesis
    proof
      assume "l = best \<and> (\<forall>y \<in> set ys. y \<le> m)"
      then show ?thesis using True by simp
    next
      assume a: "Suc i \<le> l \<and> l < Suc i + length ys \<and> m < ys ! (l - Suc i) \<and>
        (\<forall>y \<in> set ys. y \<le> ys ! (l - Suc i)) \<and> (\<forall>j < l - Suc i. ys ! j < ys ! (l - Suc i))"
      then have li: "l - i = Suc (l - Suc i)"
        by linarith
      have "\<forall>j < l - i. (y # ys) ! j < (y # ys) ! (l - i)"
        using a True unfolding li by (auto simp: nth_Cons split: nat.splits)
      then show ?thesis
        using a True unfolding li by auto
    qed
  next
    case False
    then have "argmax_from (Suc i) i (Finite y) (map Finite ys) = l"
      using Cons.prems by simp
    from Cons.IH[OF this] show ?thesis
    proof
      assume "l = i \<and> (\<forall>y' \<in> set ys. y' \<le> y)"
      then show ?thesis using False by auto
    next
      assume a: "Suc i \<le> l \<and> l < Suc i + length ys \<and> y < ys ! (l - Suc i) \<and>
        (\<forall>y \<in> set ys. y \<le> ys ! (l - Suc i)) \<and> (\<forall>j < l - Suc i. ys ! j < ys ! (l - Suc i))"
      then have li: "l - i = Suc (l - Suc i)"
        by linarith
      have "\<forall>j < l - i. (y # ys) ! j < (y # ys) ! (l - i)"
        using a False unfolding li by (auto simp: nth_Cons split: nat.splits)
      then show ?thesis
        using a False unfolding li by auto
    qed
  qed
qed

lemma argmax_finite:
  assumes "argmax (map Finite ys) = Inr l"
  shows "l < length ys \<and> (\<forall>y \<in> set ys. y \<le> ys ! l) \<and> (\<forall>j < l. ys ! j < ys ! l)"
proof (cases ys)
  case Nil
  then show ?thesis using assms by (simp add: argmax_def)
next
  case (Cons y ys')
  then have "argmax_from 1 0 (Finite y) (map Finite ys') = l"
    using assms by (simp add: argmax_def)
  from argmax_from_finite[OF this] show ?thesis
  proof
    assume "l = 0 \<and> (\<forall>y' \<in> set ys'. y' \<le> y)"
    then show ?thesis using Cons by auto
  next
    assume a: "1 \<le> l \<and> l < 1 + length ys' \<and> y < ys' ! (l - 1) \<and>
        (\<forall>y \<in> set ys'. y \<le> ys' ! (l - 1)) \<and> (\<forall>j < l - 1. ys' ! j < ys' ! (l - 1))"
    then obtain l' where l: "l = Suc l'"
      by (cases l) auto
    have "\<forall>j < l. (y # ys') ! j < (y # ys') ! l"
      using a unfolding l by (auto simp: nth_Cons split: nat.splits)
    then show ?thesis
      using a Cons unfolding l by auto
  qed
qed

lemma argmax_NaN_row:
  assumes "argmax (replicate n NaN) = Inr l"
  shows "l = 0 \<and> 0 < n"
proof (cases n)
  case 0
  then show ?thesis using assms by (simp add: argmax_def)
next
  case (Suc n')
  then show ?thesis using assms by (cases "replicate n' NaN") (simp_all add: argmax_def)
qed

subsection \<open>Truncation\<close>

lemma py_int_le_0: "py_int x \<le> 0 \<longleftrightarrow> \<lfloor>x\<rfloor> < 1"
  unfolding py_int_def by (auto simp: floor_less_iff ceiling_le_iff)

lemma py_int_pos: "\<not> py_int x \<le> 0 \<Longrightarrow> py_int x = \<lfloor>x\<rfloor>"
  unfolding py_int_def by (auto simp: ceiling_le_iff split: if_splits)

subsection \<open>Rounding to a double\<close>

lemma round_half_even_bounds: "\<bar>of_int (round_half_even y) - y\<bar> \<le> 1/2"
  unfolding round_half_even_def Let_def by (auto simp: abs_if) linarith+

lemma double_ulp_eq:
  assumes "2 powr of_int k \<le> \<bar>x\<bar>" and "\<bar>x\<bar> < 2 powr (of_int k + 1)" and "- 1022 \<le> k"
  shows "double_ulp x = 2 powr (of_int k - 52)"
proof -
  have "0 < \<bar>x\<bar>"
    using assms(1) powr_gt_zero[of 2 "of_int k"] by linarith
  then have "\<lfloor>log 2 \<bar>x\<bar>\<rfloor> = k"
    using assms(1,2) by (simp add: floor_log_eq_powr_iff)
  then show ?thesis
    using assms(3) by (simp add: double_ulp_def)
qed

text \<open>
  The double nearest to \<open>x\<close>, for \<open>x\<close> between \<open>2 ^ k\<close> and \<open>2 ^ (k + 1)\<close>: the multiple of
  \<open>2 ^ (k - 52)\<close> nearest to it.
\<close>

lemma to_double_eq:
  assumes "2 powr of_int k \<le> \<bar>x\<bar>" and "\<bar>x\<bar> < 2 powr (of_int k + 1)"
    and "- 1022 \<le> k" and "k < 1023"
  shows "to_double x
         = Some (of_int (round_half_even (x / 2 powr (of_int k - 52))) * 2 powr (of_int k - 52))"
proof -
  let ?u = "2 powr (of_int k - 52) :: real"
  let ?r = "of_int (round_half_even (x / ?u)) * ?u"
  have u: "double_ulp x = ?u"
    using assms(1,2,3) by (rule double_ulp_eq)
  have upos: "0 < ?u"
    by simp
  have x: "x \<noteq> 0"
    using assms(1) powr_gt_zero[of 2 "of_int k"] by auto
  have "\<bar>of_int (round_half_even (x / ?u)) - x / ?u\<bar> \<le> 1/2"
    by (rule round_half_even_bounds)
  then have "\<bar>of_int (round_half_even (x / ?u)) - x / ?u\<bar> * ?u \<le> 1/2 * ?u"
    using upos by (intro mult_right_mono) simp_all
  moreover have "?r - x = (of_int (round_half_even (x / ?u)) - x / ?u) * ?u"
    by (simp add: left_diff_distrib)
  then have "\<bar>?r - x\<bar> = \<bar>of_int (round_half_even (x / ?u)) - x / ?u\<bar> * ?u"
    by (simp only: abs_mult abs_of_pos[OF upos])
  ultimately have "\<bar>?r - x\<bar> \<le> ?u / 2"
    by simp
  then have "\<bar>?r\<bar> \<le> \<bar>x\<bar> + ?u / 2"
    by linarith
  moreover have "?u \<le> 2 powr 1023"
    using assms(4) by (intro powr_mono) simp_all
  moreover have "\<bar>x\<bar> < 2 powr 1023"
  proof -
    have "2 powr (of_int k + 1) \<le> (2::real) powr 1023"
      using assms(4) by (intro powr_mono) simp_all
    then show ?thesis
      using assms(2) by linarith
  qed
  ultimately have "\<bar>?r\<bar> < 2 powr 1023 + 2 powr 1023"
    by linarith
  also have "\<dots> = 2 ^ 1024"
    by (simp add: powr_numeral)
  finally have "\<not> 2 ^ 1024 \<le> \<bar>?r\<bar>"
    by simp
  then show ?thesis
    using x by (simp add: to_double_def u Let_def)
qed

text \<open>
  The literals 0.3, 0.29, 0.67 and the quotient \<open>1 / 3\<close> as doubles, and the selection sizes
  that line 310 computes from them: \<^verbatim>\<open>int(10 * 0.3) = 3\<close>, \<^verbatim>\<open>int(100 * 0.29) = 28\<close>,
  \<^verbatim>\<open>int(3 * (1 / 3)) = 1\<close> and \<^verbatim>\<open>int(3 * 0.67) = 2\<close>.
\<close>

lemma double_three_tenths: "to_double (3/10) = Some (5404319552844595 / 2 ^ 54)"
  using to_double_eq[of "-2" "3/10"]
  by (simp add: powr_minus powr_numeral round_half_even_def)

lemma double_29_hundredths: "to_double (29/100) = Some (5224175567749775 / 2 ^ 54)"
  using to_double_eq[of "-2" "29/100"]
  by (simp add: powr_minus powr_numeral round_half_even_def)

lemma double_one_third: "to_double (1/3) = Some (6004799503160661 / 2 ^ 54)"
  using to_double_eq[of "-2" "1/3"]
  by (simp add: powr_minus powr_numeral round_half_even_def)

lemma double_67_hundredths: "to_double (67/100) = Some (6034823500676465 / 2 ^ 53)"
  using to_double_eq[of "-1" "67/100"]
  by (simp add: powr_minus powr_numeral round_half_even_def)

lemma to_double_3: "to_double 3 = Some 3"
  using to_double_eq[of 1 3] by (simp add: powr_minus powr_numeral round_half_even_def)

lemma to_double_10: "to_double 10 = Some 10"
  using to_double_eq[of 3 10] by (simp add: powr_minus powr_numeral round_half_even_def)

lemma to_double_100: "to_double 100 = Some 100"
  using to_double_eq[of 6 100] by (simp add: powr_minus powr_numeral round_half_even_def)

lemma selection_size_10_times_three_tenths:
  "selection_size 10 (5404319552844595 / 2 ^ 54) = Inr 3"
  using to_double_eq[of 1 "10 * (5404319552844595 / 2 ^ 54)"]
  by (simp add: selection_size_def int_times_float_def int_of_float_def to_double_10 py_int_def
      powr_minus powr_numeral round_half_even_def)

lemma selection_size_100_times_29_hundredths:
  "selection_size 100 (5224175567749775 / 2 ^ 54) = Inr 28"
  using to_double_eq[of 4 "100 * (5224175567749775 / 2 ^ 54)"]
  by (simp add: selection_size_def int_times_float_def int_of_float_def to_double_100 py_int_def
      powr_minus powr_numeral round_half_even_def)

lemma selection_size_3_times_one_third:
  "selection_size 3 (6004799503160661 / 2 ^ 54) = Inr 1"
  using to_double_eq[of "-1" "3 * (6004799503160661 / 2 ^ 54)"]
  by (simp add: selection_size_def int_times_float_def int_of_float_def to_double_3 py_int_def
      powr_minus powr_numeral round_half_even_def)

lemma product_3_times_67_hundredths:
  "int_times_float 3 (6034823500676465 / 2 ^ 53) = Inr (Some (4526117625507349 / 2 ^ 51))"
  using to_double_eq[of 1 "3 * (6034823500676465 / 2 ^ 53)"]
  by (simp add: int_times_float_def to_double_3 powr_minus powr_numeral round_half_even_def)

lemma selection_size_3_times_67_hundredths:
  "selection_size 3 (6034823500676465 / 2 ^ 53) = Inr 2"
  unfolding selection_size_def product_3_times_67_hundredths
  by (simp add: int_of_float_def py_int_def)

subsection \<open>The examples, evaluated\<close>

lemma normalize_l1_pair: "0 < w \<Longrightarrow> normalize_l1 [[w, w]] = Inr [[1/2, 1/2]]"
  by (simp add: normalize_l1_def)

text \<open>With \<open>alpha = 0.9\<close> a class of up to three samples is far from the overflow.\<close>

lemma small_class_weight:
  assumes "n \<le> 3"
  shows "imbalance_weight (9/10) n = 1 / (1 + exp (9/10 * real n)) \<and> 0 < imbalance_weight (9/10) n"
proof -
  have "9/10 * real n \<le> 3"
    using assms by simp
  then have "exp (9/10 * real n) < 2 ^ 1024"
    by (rule exp_fits)
  then have "imbalance_weight (9/10) n = 1 / (1 + exp (9/10 * real n))"
    by (rule imbalance_weight_fits)
  then show ?thesis
    by (simp add: add_pos_pos)
qed

lemma example_neighbor_weights:
  assumes "DSEL_target self = [0, 0, 0, 1]" and "alpha self = PyFloat (9/10)"
  shows "neighbor_weights self [[0, 2]] = Inr [[1/2, 1/2]]"
proof -
  have "raw_weight self 0 = imbalance_weight (9/10) 3" "raw_weight self 2 = imbalance_weight (9/10) 3"
    using assms by (simp_all add: raw_weight_def numeral_3_eq_3)
  moreover have "0 < imbalance_weight (9/10) 3"
    by (rule small_class_weight[THEN conjunct2]) simp
  ultimately show ?thesis
    using assms(1) by (simp add: neighbor_weights_eq normalize_l1_pair)
qed

lemma example_estimate_competence:
  assumes "DSEL_target self = [0, 0, 0, 1]" and "alpha self = PyFloat (9/10)"
    and "DSEL_processed self = [[True, True, False], [False, True, True],
                                 [True, False, False], [False, False, True]]"
    and "k_attr self = 2" and "n_classifiers self = 3"
  shows "estimate_competence self [[0, 2]] distances predictions = Inr [[1, 1/2, 0]]"
  unfolding estimate_competence_def example_neighbor_weights[OF assms(1,2)]
  using assms by (simp add: take_rows_def n_columns_def upt_rec)


lemma example_competence:
  "estimate_competence example_desmi [[0, 2]] distances predictions = Inr [[1, 1/2, 0]]"
  by (rule example_estimate_competence) (simp_all add: example_desmi_def)


lemma example_pruned_competence:
  "estimate_competence example_pruned [[0, 2]] distances predictions = Inr [[1, 1/2, 0]]"
  by (rule example_estimate_competence) (simp_all add: example_pruned_def example_desmi_def)

lemma argsort_example: "argsort [1, 1/2, 0] = [2, 1, 0]"
  by (simp add: argsort_def upt_rec)

lemma example_selected:
  "selected_classifiers example_desmi [[0, 2]] distances None = Inr [[0, 1]]"
  unfolding selected_classifiers_def example_competence
  by (simp add: example_desmi_def select_def argsort_example slice_to_def)


lemma example_pruned_selected:
  "selected_classifiers example_pruned [[0, 2]] distances (Some [[1, 1, 0]]) = Inr [[0, 1]]"
  unfolding selected_classifiers_def example_pruned_competence
  by (simp add: example_pruned_def example_desmi_def select_def argsort_example slice_to_def
      multiply_def broadcast_def)

lemma example_proba:
  "predict_proba_with_ds example_desmi (Some [[0, 1, 0]]) probabilities [[0, 2]] distances None
   = Inr [[Finite (1/2), Finite (1/2)]]"
  unfolding predict_proba_with_ds_def example_selected
  by (simp add: example_desmi_def take_along_def broadcast_def sum_votes_per_class_def
      divide_by_row_sum_def upt_rec)


lemma example_classify:
  "classify_with_ds example_desmi (Some [[0, 1, 0]]) probabilities [[0, 2]] distances None
   = Inr [0]"
  unfolding classify_with_ds_def example_proba
  by (simp add: argmax_def)

lemma example_zero_competence:
  "estimate_competence example_zero [[0, 2]] distances predictions = Inr [[0, 0]]"
proof -
  have "raw_weight example_zero 0 = imbalance_weight (9/10) 2"
    "raw_weight example_zero 2 = imbalance_weight (9/10) 2"
    by (simp_all add: raw_weight_def example_zero_def numeral_2_eq_2)
  moreover have "0 < imbalance_weight (9/10) 2"
    by (rule small_class_weight[THEN conjunct2]) simp
  ultimately have "neighbor_weights example_zero [[0, 2]] = Inr [[1/2, 1/2]]"
    by (simp add: neighbor_weights_eq normalize_l1_pair) (simp add: example_zero_def)
  then show ?thesis
    unfolding estimate_competence_def
    by (simp add: example_zero_def take_rows_def n_columns_def upt_rec)
qed

lemma example_zero_selected:
  "selected_classifiers example_zero [[0, 2]] distances (Some [[1, 0]]) = Inr [[1]]"
  unfolding selected_classifiers_def example_zero_competence
  by (simp add: example_zero_def select_def argsort_def slice_to_def multiply_def broadcast_def
      upt_rec)

text \<open>
  In the DSEL of 1000 samples of one class the exponential is \<open>exp 900\<close>, beyond the doubles:
  every raw weight is 0, and so is every normalised weight and every competence.
\<close>

lemma count_list_replicate: "count_list (replicate n x) x = n"
  by (induction n) simp_all

lemma example_large_class_raw_weight:
  assumes "i < 1000"
  shows "raw_weight example_large_class i = 0"
proof -
  have "raw_weight example_large_class i = imbalance_weight (9/10) 1000"
    using assms by (simp add: raw_weight_def example_large_class_def count_list_replicate)
  moreover have "2 ^ 1024 \<le> exp (9/10 * real 1000)"
    by (rule exp_overflows) simp
  ultimately show ?thesis
    by (simp add: imbalance_weight_overflow)
qed

lemma example_large_class_weights:
  "neighbor_weights example_large_class [[0, 2]] = Inr [[0, 0]]"
  using example_large_class_raw_weight[of 0] example_large_class_raw_weight[of 2]
  by (simp add: neighbor_weights_eq normalize_l1_def) (simp add: example_large_class_def)

section \<open>The claims\<close>

subsection \<open>Competence estimation\<close>



text \<open>
  Claim C2 says that the normalised weights of every query sample sum to 1. Line 167 takes
  \<^verbatim>\<open>np.exp(self.alpha * num)\<close>, which overflows to infinity once \<open>alpha\<close> times the class
  frequency is about 710 or more: with the default \<open>alpha = 0.9\<close>, a class of 789 DSEL
  samples. The raw weight of such a neighbour is 0. When all neighbours of a sample belong
  to such classes, line 168 normalises a row of zeros, which \<^verbatim>\<open>normalize\<close> leaves as it is: the
  weights of the sample sum to 0. The code calls \<^verbatim>\<open>normalize(weight, norm='l1')\<close> to make the
  weights of a sample sum to 1 and does not guard the overflow. In the DSEL of 1000 samples
  of one class, the weights of the query with neighbours 0 and 2 are 0 and 0.

  Where a neighbour of the sample has a positive raw weight, the weights of the sample do
  sum to 1 (\<open>neighbor_weights_sum_to_one_if_positive\<close> above).
\<close>

theorem neighbor_weights_sum_to_zero_on_overflow:
  "neighbor_weights example_large_class [[0, 2]] = Inr [[0, 0]] \<and>
   sum_list ([[0, 0]] ! 0) = (0::real)"
  by (simp add: example_large_class_weights)

subsection \<open>Selection\<close>

text \<open>
  Claim C3. For a competence array whose rows have at least \<open>N\<close> entries (an array of
  dimension below 2 is first reshaped to one row) and \<open>N \<ge> 0\<close>, \<^verbatim>\<open>select\<close> returns one row per
  sample, and each row holds exactly \<open>N\<close> distinct classifier indices, in the order of
  descending competence; no classifier left out has a higher competence than one that was
  selected; and the row is the one the reference computation (argsort, reverse, first \<open>N\<close>)
  gives.
\<close>

theorem select_top_N:
  assumes "0 \<le> N_attr self"
    and "\<forall>row \<in> set (as_2d competences). nat (N_attr self) \<le> length row"
  shows "length (select self competences) = length (as_2d competences) \<and>
    (\<forall>s < length (as_2d competences).
       length (select self competences ! s) = nat (N_attr self) \<and>
       distinct (select self competences ! s) \<and>
       set (select self competences ! s) \<subseteq> {0..<length (as_2d competences ! s)} \<and>
       sorted_wrt (\<lambda>i j. as_2d competences ! s ! j \<le> as_2d competences ! s ! i)
         (select self competences ! s) \<and>
       (\<forall>j < length (as_2d competences ! s). j \<notin> set (select self competences ! s) \<longrightarrow>
          (\<forall>i \<in> set (select self competences ! s).
             as_2d competences ! s ! j \<le> as_2d competences ! s ! i)) \<and>
       select self competences ! s = select_reference (nat (N_attr self)) (as_2d competences ! s))"
proof (intro conjI allI impI ballI)
  show "length (select self competences) = length (as_2d competences)"
    by (rule length_select)
next
  fix s assume s: "s < length (as_2d competences)"
  let ?row = "as_2d competences ! s"
  let ?d = "rev (argsort ?row)"
  let ?n = "nat (N_attr self)"
  have sel: "select self competences ! s = take ?n ?d"
    using s assms(1) by (simp add: select_row slice_to_def)
  have n: "?n \<le> length ?row"
    using s assms(2) by simp
  show "length (select self competences ! s) = ?n"
    using n by (simp add: sel length_argsort)
  show "distinct (select self competences ! s)"
    by (simp add: sel distinct_argsort)
  show "set (select self competences ! s) \<subseteq> {0..<length ?row}"
    using set_take_subset[of ?n ?d] by (simp add: sel set_argsort)
  show "sorted_wrt (\<lambda>i j. ?row ! j \<le> ?row ! i) (select self competences ! s)"
    unfolding sel by (rule sorted_wrt_take) (rule rev_argsort_descending)
  show "select self competences ! s = select_reference ?n ?row"
    by (simp add: sel select_reference_def)
  fix j i
  assume j: "j < length ?row" "j \<notin> set (select self competences ! s)"
    and i: "i \<in> set (select self competences ! s)"
  have "j \<in> set ?d"
    using j(1) by (simp add: set_argsort)
  then have "j \<in> set (take ?n ?d) \<union> set (drop ?n ?d)"
    by (metis append_take_drop_id set_append)
  then have "j \<in> set (drop ?n ?d)"
    using j(2) by (simp add: sel)
  moreover have "sorted_wrt (\<lambda>i j. ?row ! j \<le> ?row ! i) (take ?n ?d @ drop ?n ?d)"
    using rev_argsort_descending[of ?row] by simp
  ultimately show "?row ! j \<le> ?row ! i"
    using i unfolding sel sorted_wrt_append by blast
qed

text \<open>The theorem of C3 at the competences 0.55, 0.45, 0.4 with \<open>N = 2\<close>.\<close>

theorem select_top_N_witness:
  "0 \<le> N_attr example_desmi \<and>
   nat (N_attr example_desmi) \<le> length [11/20, 9/20, 2/5 :: real] \<and>
   select example_desmi (Arr1 [11/20, 9/20, 2/5]) = [[0, 1]] \<and>
   length (select example_desmi (Arr1 [11/20, 9/20, 2/5]) ! 0) = nat (N_attr example_desmi) \<and>
   distinct (select example_desmi (Arr1 [11/20, 9/20, 2/5]) ! 0)"
proof -
  have h1: "0 \<le> N_attr example_desmi"
    by (simp add: example_desmi_def)
  have h2: "\<forall>row \<in> set (as_2d (Arr1 [11/20, 9/20, 2/5])). nat (N_attr example_desmi) \<le> length row"
    by (simp add: example_desmi_def)
  have v: "select example_desmi (Arr1 [11/20, 9/20, 2/5]) = [[0, 1]]"
    by (simp add: select_def example_desmi_def argsort_def slice_to_def upt_rec)
  have s: "0 < length (as_2d (Arr1 [11/20, 9/20, 2/5]))"
    by simp
  have n: "nat (N_attr example_desmi) \<le> length [11/20, 9/20, 2/5 :: real]"
    by (simp add: example_desmi_def)
  note row = select_top_N[OF h1 h2, THEN conjunct2, rule_format, OF s]
  show ?thesis
    by (intro conjI h1 n v row[THEN conjunct1] row[THEN conjunct2, THEN conjunct1])
qed

text \<open>
  Claim C4 says that classifiers of equal competence are ordered by ascending index. The
  code reverses the result of an ascending sort, and the reversal reverses the ties too: for
  two classifiers of competence 0.5 and \<open>N = 2\<close> it returns classifier 1 before classifier 0.
\<close>

theorem select_ties_lowest_index_first_counterexample:
  "select example_desmi (Arr1 [1/2, 1/2]) = [[1, 0]] \<and>
   [1/2, 1/2] ! 1 = ([1/2, 1/2] ! 0 :: real) \<and>
   \<not> select example_desmi (Arr1 [1/2, 1/2]) ! 0 ! 0 < select example_desmi (Arr1 [1/2, 1/2]) ! 0 ! 1"
  by (simp add: select_def example_desmi_def argsort_def slice_to_def upt_rec)

text \<open>
  Claim C4, amended. For a sample with at most 17 classifiers, whenever two classifiers of
  equal competence are both in the row that \<^verbatim>\<open>select\<close> returns for the sample, the one with
  the higher index comes first: the ties are ordered by descending original index,
  deterministically. (On a row of more than 17 entries the sort of numpy is not stable, and
  the order of equal values is the one its partitioning leaves.)
\<close>

theorem select_ties_descending_index:
  assumes "s < length (as_2d competences)"
    and "p < q" and "q < length (select self competences ! s)"
    and "as_2d competences ! s ! (select self competences ! s ! p) =
         as_2d competences ! s ! (select self competences ! s ! q)"
    and "length (as_2d competences ! s) \<le> 17"
  shows "select self competences ! s ! q < select self competences ! s ! p"
proof -
  let ?row = "as_2d competences ! s"
  let ?d = "rev (argsort ?row)"
  obtain n where sel: "select self competences ! s = take n ?d"
    using assms(1) slice_to_take[of "N_attr self" ?d] by (auto simp: select_row)
  have q: "q < n" "q < length ?row"
    using assms(3) by (simp_all add: sel length_argsort)
  then have "?row ! (?d ! p) = ?row ! (?d ! q)"
    using assms(2,4) by (simp add: sel)
  then have "?d ! q < ?d ! p"
    by (rule rev_argsort_ties[OF assms(2) q(2)])
  then show ?thesis
    using assms(2) q by (simp add: sel)
qed

text \<open>The amended theorem of C4 at the two tied classifiers.\<close>

theorem select_ties_descending_index_witness:
  "0 < length (as_2d (Arr1 [1/2, 1/2])) \<and> (0::nat) < 1 \<and>
   1 < length (select example_desmi (Arr1 [1/2, 1/2]) ! 0) \<and>
   as_2d (Arr1 [1/2, 1/2]) ! 0 ! (select example_desmi (Arr1 [1/2, 1/2]) ! 0 ! 0) =
   as_2d (Arr1 [1/2, 1/2]) ! 0 ! (select example_desmi (Arr1 [1/2, 1/2]) ! 0 ! 1) \<and>
   length (as_2d (Arr1 [1/2, 1/2]) ! 0) \<le> 17 \<and>
   select example_desmi (Arr1 [1/2, 1/2]) ! 0 ! 1 < select example_desmi (Arr1 [1/2, 1/2]) ! 0 ! 0"
proof -
  have v: "select example_desmi (Arr1 [1/2, 1/2]) = [[1, 0]]"
    by (simp add: select_def example_desmi_def argsort_def slice_to_def upt_rec)
  have h1: "0 < length (as_2d (Arr1 [1/2, 1/2]))"
    by simp
  have h2: "(0::nat) < 1"
    by simp
  have h3: "1 < length (select example_desmi (Arr1 [1/2, 1/2]) ! 0)"
    by (simp add: v)
  have h4: "as_2d (Arr1 [1/2, 1/2]) ! 0 ! (select example_desmi (Arr1 [1/2, 1/2]) ! 0 ! 0) =
            as_2d (Arr1 [1/2, 1/2]) ! 0 ! (select example_desmi (Arr1 [1/2, 1/2]) ! 0 ! 1)"
    by (simp add: v)
  have h5: "length (as_2d (Arr1 [1/2, 1/2]) ! 0) \<le> 17"
    by simp
  show ?thesis
    by (intro conjI h1 h2 h3 h4 h5 select_ties_descending_index[OF h1 h2 h3 h4 h5])
qed

subsection \<open>Aggregation\<close>



text \<open>
  Claim C6. Whenever \<^verbatim>\<open>classify_with_ds\<close> returns, \<^verbatim>\<open>predict_proba_with_ds\<close> returns on the same
  arguments, and the label of each sample is an index of its row of probabilities at which
  the row is maximal, with every earlier entry strictly smaller: ties go to the lowest class
  index. A row of NaN (no vote counted, or no classifier selected) has no maximum; its label
  is 0.
\<close>

theorem classify_with_ds_is_first_argmax:
  assumes "classify_with_ds self predictions probabilities neighbors distances DFP_mask = Inr labels"
  shows "\<exists>proba. predict_proba_with_ds self predictions probabilities neighbors distances DFP_mask
                   = Inr proba \<and>
           length labels = length proba \<and>
           (\<forall>s < length proba.
              labels ! s < length (proba ! s) \<and>
              ((\<exists>ys. proba ! s = map Finite ys \<and>
                     (\<forall>y \<in> set ys. y \<le> ys ! (labels ! s)) \<and>
                     (\<forall>j < labels ! s. ys ! j < ys ! (labels ! s)))
               \<or> (proba ! s = replicate (length (proba ! s)) NaN \<and> labels ! s = 0)))"
proof -
  obtain proba where p: "predict_proba_with_ds self predictions probabilities neighbors distances
                           DFP_mask = Inr proba"
    and c: "collect (map argmax proba) = Inr labels"
    using assms by (auto simp: classify_with_ds_def split: sum.splits)
  have len: "length labels = length proba"
    and am: "\<And>s. s < length proba \<Longrightarrow> argmax (proba ! s) = Inr (labels ! s)"
    using collect_Inr[OF c] by auto
  have "labels ! s < length (proba ! s) \<and>
        ((\<exists>ys. proba ! s = map Finite ys \<and> (\<forall>y \<in> set ys. y \<le> ys ! (labels ! s)) \<and>
               (\<forall>j < labels ! s. ys ! j < ys ! (labels ! s)))
         \<or> (proba ! s = replicate (length (proba ! s)) NaN \<and> labels ! s = 0))"
    if s: "s < length proba" for s
  proof -
    from predict_proba_rows[OF p nth_mem[OF s]]
    show ?thesis
    proof
      assume "\<exists>ys. proba ! s = map Finite ys"
      then obtain ys where ys: "proba ! s = map Finite ys"
        by blast
      then show ?thesis
        using argmax_finite[of ys "labels ! s"] am[OF s] by auto
    next
      assume nan: "proba ! s = replicate (length (proba ! s)) NaN"
      then show ?thesis
        using argmax_NaN_row[of "length (proba ! s)" "labels ! s"] am[OF s] by auto
    qed
  qed
  then show ?thesis
    using p len by blast
qed

text \<open>
  The theorem of C6 at the example: the two classes tie at 0.5 and the label is 0.
\<close>

theorem classify_with_ds_is_first_argmax_witness:
  "classify_with_ds example_desmi (Some [[0, 1, 0]]) None [[0, 2]] None None = Inr [0] \<and>
   (\<exists>proba. predict_proba_with_ds example_desmi (Some [[0, 1, 0]]) None [[0, 2]] None None
              = Inr proba \<and>
      length [0 :: nat] = length proba \<and>
      (\<forall>s < length proba.
         [0] ! s < length (proba ! s) \<and>
         ((\<exists>ys. proba ! s = map Finite ys \<and>
                (\<forall>y \<in> set ys. y \<le> ys ! ([0] ! s)) \<and>
                (\<forall>j < [0] ! s. ys ! j < ys ! ([0] ! s)))
          \<or> (proba ! s = replicate (length (proba ! s)) NaN \<and> [0 :: nat] ! s = 0))))"
proof -
  have h: "classify_with_ds example_desmi (Some [[0, 1, 0]]) None [[0, 2]] None None = Inr [0]"
    by (rule example_classify)
  show ?thesis
    by (rule conjI[OF h classify_with_ds_is_first_argmax[OF h]])
qed

subsection \<open>Pruning\<close>

text \<open>
  Claim C7 says that a classifier whose mask entry is 0 is never selected for a sample in
  which at least \<open>N\<close> classifiers have mask entry 1. The code multiplies the competence by
  the mask, so a pruned classifier gets competence 0; an eligible classifier that is right
  on no neighbour has competence 0 as well, and the tie is resolved by the sort. With two
  classifiers of competence 0, \<open>N = 1\<close> and the mask (1, 0), the code selects classifier 1,
  which the mask prunes.
\<close>

theorem pruned_classifier_selected_counterexample:
  "DFP example_zero \<and> N_attr example_zero = 1 \<and>
   selected_classifiers example_zero [[0, 2]] None (Some [[1, 0]]) = Inr [[1]] \<and>
   [[1, 0]] ! 0 ! 0 = (1::real) \<and> [[1, 0]] ! 0 ! 1 = (0::real) \<and> 1 \<in> set ([[1]] ! 0 :: nat list)"
  by (simp add: example_zero_selected) (simp add: example_zero_def)

text \<open>
  Claim C7, amended. When pruning is on and the mask has the shape of the competence
  matrix, for every sample in which at least \<open>N\<close> classifiers have mask entry 1 and a
  positive competence, a classifier whose mask entry for the sample is 0 is absent from the
  sample's row of selected classifiers.
\<close>

theorem pruned_classifier_not_selected:
  assumes "DFP self"
    and "estimate_competence self competence_region distances None = Inr competence"
    and "selected_classifiers self competence_region distances (Some dfp) = Inr selected"
    and "length dfp = length competence_region" and "s < length competence_region"
    and "length (dfp ! s) = n_columns (DSEL_processed self)"
    and "0 \<le> N_attr self"
    and "nat (N_attr self)
           \<le> length (filter (\<lambda>i. dfp ! s ! i = 1 \<and> 0 < competence ! s ! i)
                        [0..<n_columns (DSEL_processed self)])"
    and "j < n_columns (DSEL_processed self)" and "dfp ! s ! j = 0"
  shows "j \<notin> set (selected ! s)"
proof
  assume j: "j \<in> set (selected ! s)"
  let ?m = "n_columns (DSEL_processed self)"
  let ?n = "nat (N_attr self)"
  note shape = estimate_competence_shape[OF assms(2)]
  obtain accuracy where mul: "multiply competence dfp = Inr accuracy"
    and sel: "selected = select self (Arr2 accuracy)"
    using assms(1,2,3) by (auto simp: selected_classifiers_def split: sum.splits)
  have l: "length competence = length dfp" and s: "s < length competence"
    using shape assms(4,5) by simp_all
  have row: "length (competence ! s) = ?m"
    using shape s by simp
  then have "length (competence ! s) = length (dfp ! s)"
    using assms(6) by simp
  from multiply_same_shape[OF mul l s this]
  have la: "length accuracy = length competence"
    and acc: "accuracy ! s = map2 (*) (competence ! s) (dfp ! s)"
    by simp_all
  let ?acc = "accuracy ! s"
  let ?d = "rev (argsort ?acc)"
  have len: "length ?acc = ?m"
    using row assms(6) by (simp add: acc)
  have entry: "?acc ! i = competence ! s ! i * dfp ! s ! i" if "i < ?m" for i
    using that row assms(6) by (simp add: acc)
  have srow: "selected ! s = take ?n ?d"
    using s la assms(7) by (simp add: sel select_row slice_to_def)
  have "set (filter (\<lambda>i. dfp ! s ! i = 1 \<and> 0 < competence ! s ! i) [0..<?m])
        \<subseteq> {x \<in> set ?d. 0 < ?acc ! x}"
    by (auto simp: set_argsort len entry)
  then have "card (set (filter (\<lambda>i. dfp ! s ! i = 1 \<and> 0 < competence ! s ! i) [0..<?m]))
             \<le> card {x \<in> set ?d. 0 < ?acc ! x}"
    by (intro card_mono) simp_all
  moreover have "card (set (filter (\<lambda>i. dfp ! s ! i = 1 \<and> 0 < competence ! s ! i) [0..<?m]))
                 = length (filter (\<lambda>i. dfp ! s ! i = 1 \<and> 0 < competence ! s ! i) [0..<?m])"
    by (intro distinct_card distinct_filter) simp
  ultimately have "?n \<le> card {x \<in> set ?d. 0 < ?acc ! x}"
    using assms(8) by simp
  from descending_prefix_positive[OF rev_argsort_descending this, of j]
  have "0 < ?acc ! j"
    using j by (simp add: srow)
  then show False
    using entry[OF assms(9)] assms(10) by simp
qed

text \<open>
  The amended theorem of C7 at the example with the mask (1, 1, 0): classifiers 0 and 1 are
  selected, classifier 2 is not.
\<close>

theorem pruned_classifier_not_selected_witness:
  "DFP example_pruned \<and>
   estimate_competence example_pruned [[0, 2]] None None = Inr [[1, 1/2, 0]] \<and>
   selected_classifiers example_pruned [[0, 2]] None (Some [[1, 1, 0]]) = Inr [[0, 1]] \<and>
   nat (N_attr example_pruned)
     \<le> length (filter (\<lambda>i. [[1, 1, 0]] ! 0 ! i = (1::real) \<and> 0 < [[1, 1/2, 0 :: real]] ! 0 ! i)
                  [0..<n_columns (DSEL_processed example_pruned)]) \<and>
   [[1, 1, 0]] ! 0 ! 2 = (0::real) \<and>
   2 \<notin> set ([[0, 1]] ! 0 :: nat list)"
proof -
  have m: "n_columns (DSEL_processed example_pruned) = 3"
    by (simp add: example_pruned_def example_desmi_def n_columns_def)
  have h1: "DFP example_pruned"
    by (simp add: example_pruned_def)
  have h2: "estimate_competence example_pruned [[0, 2]] None None = Inr [[1, 1/2, 0]]"
    by (rule example_pruned_competence)
  have h3: "selected_classifiers example_pruned [[0, 2]] None (Some [[1, 1, 0]]) = Inr [[0, 1]]"
    by (rule example_pruned_selected)
  have h4: "length [[1, 1, 0 :: real]] = length [[0, 2 :: nat]]"
    by simp
  have h5: "0 < length [[0, 2 :: nat]]"
    by simp
  have h6: "length ([[1, 1, 0 :: real]] ! 0) = n_columns (DSEL_processed example_pruned)"
    by (simp add: m)
  have h7: "0 \<le> N_attr example_pruned"
    by (simp add: example_pruned_def example_desmi_def)
  have h8: "nat (N_attr example_pruned)
     \<le> length (filter (\<lambda>i. [[1, 1, 0]] ! 0 ! i = (1::real) \<and> 0 < [[1, 1/2, 0 :: real]] ! 0 ! i)
                  [0..<n_columns (DSEL_processed example_pruned)])"
    by (simp add: m upt_rec) (simp add: example_pruned_def example_desmi_def)
  have h9: "2 < n_columns (DSEL_processed example_pruned)"
    by (simp add: m)
  have h10: "[[1, 1, 0]] ! 0 ! 2 = (0::real)"
    by simp
  show ?thesis
    by (intro conjI h1 h2 h3 h8 h10
        pruned_classifier_not_selected[OF h1 h2 h3 h4 h5 h6 h7 h8 h9 h10])
qed

subsection \<open>Parameter validation\<close>

text \<open>
  Claim C8 says that validation fails if and only if \<open>N < 1\<close>, or \<open>alpha\<close> is not positive, or
  \<open>alpha\<close> is not a float, or \<open>pct_accuracy\<close> is outside \<open>(0, 1]\<close>, or \<open>voting\<close> is neither
  \<open>'hard'\<close> nor \<open>'soft'\<close>. With \<open>voting = 'soft'\<close> the method goes on to check that the pool
  can predict probabilities: for a pool that cannot, validation fails although none of the
  listed conditions holds. At the example the product \<open>3 * 0.67\<close> is the double
  2.0100000000000002 and \<open>N = 2\<close>.
\<close>

theorem validate_parameters_soft_counterexample:
  "snd (validate_parameters None False example_soft) = Some UnsupportedCapability \<and>
   int_times_float (n_classifiers example_soft) (pct_accuracy example_soft)
     = Inr (Some (4526117625507349 / 2 ^ 51)) \<and>
   \<not> \<lfloor>4526117625507349 / 2 ^ 51 :: real\<rfloor> < 1 \<and>
   \<not> num_val (alpha example_soft) \<le> 0 \<and>
   is_float (alpha example_soft) \<and>
   0 < pct_accuracy example_soft \<and> pct_accuracy example_soft \<le> 1 \<and>
   voting example_soft \<in> {''hard'', ''soft''}"
proof -
  have f: "n_classifiers example_soft = 3" "pct_accuracy example_soft = 6034823500676465 / 2 ^ 53"
    "alpha example_soft = PyFloat (9/10)" "voting example_soft = ''soft''"
    by (simp_all add: example_soft_def example_desmi_def)
  have "snd (validate_parameters None False example_soft) = Some UnsupportedCapability"
    unfolding validate_parameters_def f selection_size_3_times_67_hundredths
    by (simp add: f check_predict_proba_def Let_def)
  moreover have "int_times_float (n_classifiers example_soft) (pct_accuracy example_soft)
                 = Inr (Some (4526117625507349 / 2 ^ 51))"
    unfolding f by (rule product_3_times_67_hundredths)
  ultimately show ?thesis
    by (simp add: f)
qed

text \<open>
  Claim C8, amended. Validation fails if and only if the validation of the base class fails,
  or the selection size \<open>N\<close> is less than 1 or cannot be computed, or \<open>alpha\<close> is not positive,
  or \<open>alpha\<close> is not a float, or \<open>pct_accuracy\<close> is outside \<open>(0, 1]\<close>, or \<open>voting\<close> is neither
  \<open>'hard'\<close> nor \<open>'soft'\<close>, or \<open>voting\<close> is \<open>'soft'\<close> and the pool cannot predict probabilities.
  \<open>N\<close> is the floor of the product \<open>n_classifiers * pct_accuracy\<close> as the code computes it,
  in double precision: the product rounded to the nearest double; it cannot be computed
  when that product is not finite. When the base class accepts the parameters, the failure
  is a type error exactly when \<open>N \<ge> 1\<close> and \<open>alpha\<close> is positive and not a float. When
  validation succeeds, \<open>N\<close> is stored in the object (the one attribute that the method itself
  assigns), and \<open>N \<ge> 1\<close>.
\<close>

theorem validate_parameters_fails_iff:
  "(snd (validate_parameters super_outcome pool_has_predict_proba self) \<noteq> None \<longleftrightarrow>
      super_outcome \<noteq> None \<or>
      \<not> (\<exists>y. int_times_float (n_classifiers self) (pct_accuracy self) = Inr (Some y) \<and>
               1 \<le> \<lfloor>y\<rfloor>) \<or>
      num_val (alpha self) \<le> 0 \<or>
      \<not> is_float (alpha self) \<or>
      pct_accuracy self \<le> 0 \<or> 1 < pct_accuracy self \<or>
      voting self \<notin> {''hard'', ''soft''} \<or>
      (voting self = ''soft'' \<and> \<not> pool_has_predict_proba)) \<and>
   (super_outcome = None \<longrightarrow>
      (snd (validate_parameters super_outcome pool_has_predict_proba self) = Some TypeError \<longleftrightarrow>
         (\<exists>y. int_times_float (n_classifiers self) (pct_accuracy self) = Inr (Some y) \<and>
              1 \<le> \<lfloor>y\<rfloor>) \<and>
         0 < num_val (alpha self) \<and> \<not> is_float (alpha self))) \<and>
   (snd (validate_parameters super_outcome pool_has_predict_proba self) = None \<longrightarrow>
      (\<exists>y. int_times_float (n_classifiers self) (pct_accuracy self) = Inr (Some y) \<and>
           fst (validate_parameters super_outcome pool_has_predict_proba self)
             = self\<lparr>N_attr := \<lfloor>y\<rfloor>\<rparr> \<and>
           1 \<le> \<lfloor>y\<rfloor>))"
proof (cases super_outcome)
  case (Some e)
  then show ?thesis
    by (simp add: validate_parameters_def)
next
  case None
  show ?thesis
  proof (cases "int_times_float (n_classifiers self) (pct_accuracy self)")
    case (Inl e)
    then have e: "e = OverflowError"
      by (auto simp: int_times_float_def split: option.splits)
    have "selection_size (n_classifiers self) (pct_accuracy self) = Inl e"
      using Inl by (simp add: selection_size_def)
    then show ?thesis
      using None Inl e by (simp add: validate_parameters_def)
  next
    case (Inr product)
    show ?thesis
    proof (cases product)
      case inf: None
      then have "selection_size (n_classifiers self) (pct_accuracy self) = Inl OverflowError"
        using Inr by (simp add: selection_size_def int_of_float_def)
      then show ?thesis
        using None Inr inf by (simp add: validate_parameters_def)
    next
      case (Some y)
      then have sz: "selection_size (n_classifiers self) (pct_accuracy self) = Inr (py_int y)"
        using Inr by (simp add: selection_size_def int_of_float_def)
      have p: "int_times_float (n_classifiers self) (pct_accuracy self) = Inr (Some y)"
        using Inr Some by simp
      show ?thesis
      proof (cases "py_int y \<le> 0")
        case True
        then have "\<not> 1 \<le> \<lfloor>y\<rfloor>"
          by (simp add: py_int_le_0)
        then show ?thesis
          using None True by (simp add: validate_parameters_def sz p Let_def)
      next
        case False
        then have fl: "py_int y = \<lfloor>y\<rfloor>" "1 \<le> \<lfloor>y\<rfloor>"
          using py_int_le_0[of y] by (simp_all add: py_int_pos)
        show ?thesis
          using None False fl
          by (auto simp: validate_parameters_def sz p Let_def check_predict_proba_def)
      qed
    qed
  qed
qed

text \<open>
  The amended theorem of C8 at the example, which validates and stores \<open>N = 2\<close>, and at the
  example with the integer 1 for \<open>alpha\<close>, which fails with a type error.
\<close>

theorem validate_parameters_fails_iff_witness:
  "snd (validate_parameters None True example_unvalidated) = None \<and>
   N_attr (fst (validate_parameters None True example_unvalidated)) = 2 \<and>
   (\<exists>y. int_times_float (n_classifiers example_unvalidated) (pct_accuracy example_unvalidated)
          = Inr (Some y) \<and>
        fst (validate_parameters None True example_unvalidated)
          = example_unvalidated\<lparr>N_attr := \<lfloor>y\<rfloor>\<rparr> \<and>
        1 \<le> \<lfloor>y\<rfloor>) \<and>
   (\<exists>y. int_times_float (n_classifiers example_int_alpha) (pct_accuracy example_int_alpha)
          = Inr (Some y) \<and>
        1 \<le> \<lfloor>y\<rfloor>) \<and>
   0 < num_val (alpha example_int_alpha) \<and> \<not> is_float (alpha example_int_alpha) \<and>
   snd (validate_parameters None True example_int_alpha) = Some TypeError"
proof -
  have f: "n_classifiers example_unvalidated = 3"
    "pct_accuracy example_unvalidated = 6034823500676465 / 2 ^ 53"
    "alpha example_unvalidated = PyFloat (9/10)" "voting example_unvalidated = ''hard''"
    by (simp_all add: example_unvalidated_def example_desmi_def)
  have g: "n_classifiers example_int_alpha = 3"
    "pct_accuracy example_int_alpha = 6034823500676465 / 2 ^ 53"
    by (simp_all add: example_int_alpha_def example_desmi_def)
  have v: "validate_parameters None True example_unvalidated
           = (example_unvalidated\<lparr>N_attr := 2\<rparr>, None)"
    unfolding validate_parameters_def f selection_size_3_times_67_hundredths
    by (simp add: f Let_def)
  have h: "snd (validate_parameters None True example_unvalidated) = None"
    by (simp add: v)
  have n: "N_attr (fst (validate_parameters None True example_unvalidated)) = 2"
    by (simp add: v)
  have a: "(\<exists>y. int_times_float (n_classifiers example_int_alpha) (pct_accuracy example_int_alpha)
                 = Inr (Some y) \<and> 1 \<le> \<lfloor>y\<rfloor>) \<and>
           0 < num_val (alpha example_int_alpha) \<and> \<not> is_float (alpha example_int_alpha)"
  proof (intro conjI exI)
    show "int_times_float (n_classifiers example_int_alpha) (pct_accuracy example_int_alpha)
          = Inr (Some (4526117625507349 / 2 ^ 51))"
      unfolding g by (rule product_3_times_67_hundredths)
    show "1 \<le> \<lfloor>4526117625507349 / 2 ^ 51 :: real\<rfloor>"
      by simp
  qed (simp_all add: example_int_alpha_def example_desmi_def)
  note ok = validate_parameters_fails_iff[of None True example_unvalidated,
      THEN conjunct2, THEN conjunct2, rule_format, OF h]
  note ty = validate_parameters_fails_iff[of None True example_int_alpha,
      THEN conjunct2, THEN conjunct1, rule_format, OF refl, THEN iffD2, OF a]
  show ?thesis
    by (intro conjI h n ok a[THEN conjunct1] a[THEN conjunct2, THEN conjunct1]
        a[THEN conjunct2, THEN conjunct2] ty)
qed

subsection \<open>Arguments that are not read\<close>

text \<open>
  Claim C9. In hard-voting mode the result of \<^verbatim>\<open>predict_proba_with_ds\<close> is the same for any
  two values of \<open>probabilities\<close>, \<^verbatim>\<open>None\<close> included; in soft-voting mode it is the same for any
  two values of \<open>predictions\<close>.
\<close>

theorem predict_proba_with_ds_reads_one_of_predictions_probabilities:
  "(voting self = ''hard'' \<longrightarrow>
      predict_proba_with_ds self predictions probabilities competence_region distances DFP_mask =
      predict_proba_with_ds self predictions probabilities' competence_region distances DFP_mask) \<and>
   (voting self = ''soft'' \<longrightarrow>
      predict_proba_with_ds self predictions probabilities competence_region distances DFP_mask =
      predict_proba_with_ds self predictions' probabilities competence_region distances DFP_mask)"
  by (simp add: predict_proba_with_ds_def split: sum.splits)

text \<open>The theorem of C9 at the hard and the soft example.\<close>

theorem predict_proba_with_ds_reads_one_of_predictions_probabilities_witness:
  "voting example_desmi = ''hard'' \<and>
   predict_proba_with_ds example_desmi (Some [[0, 1, 0]]) None [[0, 2]] None None =
   predict_proba_with_ds example_desmi (Some [[0, 1, 0]])
     (Some [[[4/5, 1/5], [2/5, 3/5], [1/2, 1/2]]]) [[0, 2]] None None \<and>
   voting example_soft = ''soft'' \<and>
   predict_proba_with_ds example_soft None (Some [[[4/5, 1/5], [2/5, 3/5], [1/2, 1/2]]])
     [[0, 2]] None None =
   predict_proba_with_ds example_soft (Some [[0, 1, 0]])
     (Some [[[4/5, 1/5], [2/5, 3/5], [1/2, 1/2]]]) [[0, 2]] None None"
proof -
  have h: "voting example_desmi = ''hard''"
    by (simp add: example_desmi_def)
  have s: "voting example_soft = ''soft''"
    by (simp add: example_soft_def)
  show ?thesis
    by (intro conjI h s
        predict_proba_with_ds_reads_one_of_predictions_probabilities
          [THEN conjunct1, rule_format, OF h]
        predict_proba_with_ds_reads_one_of_predictions_probabilities
          [THEN conjunct2, rule_format, OF s])
qed

text \<open>
  Claim C10. Two calls of \<^verbatim>\<open>estimate_competence\<close> on the same object and the same
  \<open>competence_region\<close> return the same result, whatever the arguments \<open>distances\<close> and
  \<open>predictions\<close> are, \<^verbatim>\<open>None\<close> included.
\<close>

theorem estimate_competence_ignores_distances_predictions:
  "estimate_competence self competence_region distances predictions =
   estimate_competence self competence_region distances' predictions'"
  by (simp add: estimate_competence_def)

text \<open>The theorem of C10 at the example.\<close>

theorem estimate_competence_ignores_distances_predictions_witness:
  "estimate_competence example_desmi [[0, 2]] None None =
   estimate_competence example_desmi [[0, 2]] (Some [[1/10, 1/5]]) (Some [[0, 1, 0]])"
  by (rule estimate_competence_ignores_distances_predictions)

end
